theory Spec2Isabelle
  imports Main "HOL-Library.Sublist"
begin

section \<open>JavaScript values read by the protocol layer\<close>

text \<open>
  The router works on the value that \<^verbatim>\<open>JSON.parse\<close> returns, so an envelope is an arbitrary
  JSON value. The JavaScript value \<^verbatim>\<open>undefined\<close> (a missing property, a missing argument)
  is \<open>None\<close>. An object is the list of its own properties, read by name with \<open>map_of\<close>.

  A number is an integer, given with the text that \<^verbatim>\<open>ToString\<close> yields for it: up to a
  magnitude of \<open>2^53\<close> this text is the decimal numeral (\<open>jnum\<close> below); above it the text is
  the shortest numeral that reads back as the same double, in exponent form from \<open>10^21\<close>
  on, and it is taken from the runtime rather than computed. The text is a function of the
  number, so two equal numbers are equal values here. Fractions are outside the model.
\<close>

datatype json =
    JNull
  | JBool bool
  | JNum int string
  | JStr string
  | JArr "json list"
  | JObj "(string \<times> json) list"

type_synonym jsval = "json option"

datatype js_error = TypeError | AssertionError | Error string

text \<open>Property read \<^verbatim>\<open>v.k\<close>: a \<^verbatim>\<open>TypeError\<close> on \<^verbatim>\<open>undefined\<close> and \<^verbatim>\<open>null\<close>, the own
  property of an object, and \<^verbatim>\<open>undefined\<close> on every other value (none of the names the
  code reads is a property of a boolean, number, string or array, or one that an object
  inherits).\<close>

fun get_prop :: "jsval \<Rightarrow> string \<Rightarrow> js_error + jsval" where
  "get_prop None k = Inl TypeError"
| "get_prop (Some JNull) k = Inl TypeError"
| "get_prop (Some (JObj kvs)) k = Inr (map_of kvs k)"
| "get_prop (Some v) k = Inr None"

text \<open>The operator \<^verbatim>\<open>k in v\<close>: a \<^verbatim>\<open>TypeError\<close> unless \<open>v\<close> is an object or an array. The
  code asks for the one name \<^verbatim>\<open>data\<close>, which no array has and no object inherits.\<close>

fun has_prop :: "string \<Rightarrow> jsval \<Rightarrow> js_error + bool" where
  "has_prop k (Some (JObj kvs)) = Inr (map_of kvs k \<noteq> None)"
| "has_prop k (Some (JArr xs)) = Inr False"
| "has_prop k v = Inl TypeError"

text \<open>Truthiness, as tested by \<^verbatim>\<open>if (v)\<close>.\<close>

fun truthy :: "jsval \<Rightarrow> bool" where
  "truthy None = False"
| "truthy (Some JNull) = False"
| "truthy (Some (JBool b)) = b"
| "truthy (Some (JNum n t)) = (n \<noteq> 0)"
| "truthy (Some (JStr s)) = (s \<noteq> [])"
| "truthy (Some (JArr xs)) = True"
| "truthy (Some (JObj kvs)) = True"

text \<open>The operator \<^verbatim>\<open>a ?? b\<close>.\<close>

fun nullish_or :: "jsval \<Rightarrow> jsval \<Rightarrow> jsval" where
  "nullish_or None b = b"
| "nullish_or (Some JNull) b = b"
| "nullish_or a b = a"

definition bind_js :: "js_error + 'a \<Rightarrow> ('a \<Rightarrow> js_error + 'b) \<Rightarrow> js_error + 'b" where
  "bind_js m f = (case m of Inl e \<Rightarrow> Inl e | Inr x \<Rightarrow> f x)"

subsection \<open>String conversion in template literals\<close>

text \<open>
  A template literal applies \<^verbatim>\<open>ToString\<close> to each of its values. On an object this calls the
  object's \<^verbatim>\<open>toString\<close>: a parsed object inherits the one of \<^verbatim>\<open>Object.prototype\<close>, which
  yields \<^verbatim>\<open>[object Object]\<close>, unless it has a property of that name of its own, which is a
  JSON value and so not callable; then neither it nor the inherited \<^verbatim>\<open>valueOf\<close> yields a
  primitive, and the conversion throws a \<^verbatim>\<open>TypeError\<close>. An array joins the conversions of
  its elements, made from left to right, with \<^verbatim>\<open>null\<close> converted to the empty string.
\<close>

definition digit_char :: "nat \<Rightarrow> char" where
  "digit_char d = ''0123456789'' ! (d mod 10)"

fun digits :: "nat \<Rightarrow> string" where
  "digits n = (if n < 10 then [digit_char n] else digits (n div 10) @ [digit_char n])"

declare digits.simps [simp del]

text \<open>The number \<open>n\<close> with its decimal numeral: the value that \<^verbatim>\<open>JSON.parse\<close> returns for an
  integer of magnitude up to \<open>2^53\<close>.\<close>

definition jnum :: "int \<Rightarrow> json" where
  "jnum n = JNum n (if n < 0 then ''-'' @ digits (nat (- n)) else digits (nat n))"

fun join_comma :: "string list \<Rightarrow> string" where
  "join_comma [] = []"
| "join_comma [x] = x"
| "join_comma (x # y # ys) = x @ '','' @ join_comma (y # ys)"

text \<open>The results of a list of conversions, up to the first one that throws.\<close>

fun collect :: "(js_error + 'a) list \<Rightarrow> js_error + 'a list" where
  "collect [] = Inr []"
| "collect (x # xs) = bind_js x (\<lambda>y. bind_js (collect xs) (\<lambda>ys. Inr (y # ys)))"

fun json_to_string :: "json \<Rightarrow> js_error + string" where
  "json_to_string JNull = Inr ''null''"
| "json_to_string (JBool b) = Inr (if b then ''true'' else ''false'')"
| "json_to_string (JNum n t) = Inr t"
| "json_to_string (JStr s) = Inr s"
| "json_to_string (JArr xs) =
     bind_js (collect (map (\<lambda>x. if x = JNull then Inr [] else json_to_string x) xs))
       (\<lambda>ts. Inr (join_comma ts))"
| "json_to_string (JObj kvs) =
     (if map_of kvs ''toString'' = None then Inr ''[object Object]'' else Inl TypeError)"

fun to_string :: "jsval \<Rightarrow> js_error + string" where
  "to_string None = Inr ''undefined''"
| "to_string (Some v) = json_to_string v"

subsection \<open>The built-in \<^verbatim>\<open>Map\<close>\<close>

text \<open>
  A \<^verbatim>\<open>Map\<close> is its list of entries in insertion order. Keys are compared by value, except
  arrays and objects, which are compared by reference: every key the code uses is read
  from a freshly parsed envelope, so such a key equals no key already stored.
\<close>

type_synonym 'v jsmap = "(jsval \<times> 'v) list"

fun by_reference :: "jsval \<Rightarrow> bool" where
  "by_reference (Some (JArr xs)) = True"
| "by_reference (Some (JObj kvs)) = True"
| "by_reference v = False"

definition map_get :: "'v jsmap \<Rightarrow> jsval \<Rightarrow> 'v option" where
  "map_get m k = (if by_reference k then None else map_of m k)"

definition map_set :: "'v jsmap \<Rightarrow> jsval \<Rightarrow> 'v \<Rightarrow> 'v jsmap" where
  "map_set m k v =
     (if map_get m k = None then m @ [(k, v)]
      else map (\<lambda>(k', v'). if k' = k then (k', v) else (k', v')) m)"

definition map_delete :: "'v jsmap \<Rightarrow> jsval \<Rightarrow> 'v jsmap" where
  "map_delete m k = (if by_reference k then m else filter (\<lambda>(k', v'). k' \<noteq> k) m)"

definition map_values :: "'v jsmap \<Rightarrow> 'v list" where
  "map_values m = map snd m"

text \<open>The number that a value of the counter is, and the string that a name is.\<close>

definition num :: "nat \<Rightarrow> jsval" where
  "num n = Some (jnum (int n))"

definition str :: "string \<Rightarrow> jsval" where
  "str s = Some (JStr s)"

section \<open>Data model\<close>

text \<open>
  Modelled from the spec: the class \<^verbatim>\<open>ProtocolError\<close> of \<^verbatim>\<open>./Errors\<close> is not among the
  sources. It is the error holder stored with every pending call; the code writes its
  \<open>message\<close> and \<open>originalMessage\<close>, and the spec calls the original message optional.
\<close>

record protocol_error =
  pe_message :: string
  pe_originalMessage :: jsval

text \<open>
  Modelled from the spec: what \<^verbatim>\<open>new ProtocolError()\<close> holds is not among the sources; a
  fresh holder is taken to have an empty message and no original message. Both fields are
  overwritten, or kept, by \<open>rewriteError\<close> before the holder is handed to anyone.
\<close>

definition new_ProtocolError :: protocol_error where
  "new_ProtocolError = \<lparr>pe_message = [], pe_originalMessage = None\<rparr>"

text \<open>\<^verbatim>\<open>ConnectionCallback\<close>. The functions \<open>resolve\<close> and \<open>reject\<close> of the promise are
  named, in the effects below, by the owner of the table and the key of the entry.\<close>

record callback =
  cb_error :: protocol_error
  cb_method :: string

datatype conn_ref = ThisConnection

text \<open>\<^verbatim>\<open>CDPSession\<close>.\<close>

record cdp_session =
  s_sessionId :: jsval
  s_targetType :: jsval
  s_callbacks :: "callback jsmap"
  s_connection :: "conn_ref option"

text \<open>An event emitter is the Connection or the session object at an address of the store.\<close>

datatype owner = Conn | Sess nat

datatype event = Named jsval | ConnectionDisconnected | CDPSessionDisconnected

datatype arg = NoArg | Value jsval | SessionRef nat

text \<open>The object handed to \<^verbatim>\<open>JSON.stringify\<close> in \<^verbatim>\<open>_rawSend\<close>.\<close>

record out_message =
  out_sessionId :: jsval
  out_method :: string
  out_params :: jsval
  out_id :: nat

text \<open>What the code does to its collaborators, in order: the transport, the promises of
  the pending calls, and the listeners of the event emitters. The collaborators are outside
  this layer: the transport's \<^verbatim>\<open>send\<close> and the listeners are taken to return normally,
  and not to call into this layer before they return. The two debug loggers are left out.\<close>

datatype effect =
    TransportSend out_message
  | TransportClose
  | Resolve owner jsval jsval
  | Reject owner jsval protocol_error
  | Emit owner event arg

text \<open>
  \<^verbatim>\<open>Connection\<close>, together with the store of every \<^verbatim>\<open>CDPSession\<close> object constructed so
  far (a session is referred to by its address, as callers keep references to sessions
  that have left the session map) and the trace of effects. \<open>hooked\<close> says that the
  transport's \<^verbatim>\<open>onmessage\<close> and \<^verbatim>\<open>onclose\<close> are set. The counter is a natural number:
  \<^verbatim>\<open>++\<close> on a double is exact below \<open>2^53\<close>.
\<close>

record connection =
  url :: string
  lastId :: nat
  sessions :: "nat jsmap"
  closed :: bool
  callbacks :: "callback jsmap"
  hooked :: bool
  store :: "cdp_session list"
  trace :: "effect list"

definition new_Connection :: "string \<Rightarrow> connection" where
  "new_Connection u =
     \<lparr>url = u, lastId = 0, sessions = [], closed = False, callbacks = [],
      hooked = True, store = [], trace = []\<rparr>"

definition do_effects :: "connection \<Rightarrow> effect list \<Rightarrow> connection" where
  "do_effects c es = c\<lparr>trace := trace c @ es\<rparr>"

text \<open>
  Modelled from the spec: the class \<^verbatim>\<open>EventEmitter\<close> of \<^verbatim>\<open>./EventEmitter\<close>, which both
  classes extend, is not among the sources. The spec has it as a publish/subscribe
  registry that hands a named event to its listeners at once and in order; the listeners
  are outside this layer, so an emission is recorded in the trace.
\<close>

definition emit :: "connection \<Rightarrow> owner \<Rightarrow> event \<Rightarrow> arg \<Rightarrow> connection" where
  "emit c w ev a = do_effects c [Emit w ev a]"

definition update_session :: "connection \<Rightarrow> nat \<Rightarrow> (cdp_session \<Rightarrow> cdp_session) \<Rightarrow> connection" where
  "update_session c a f = c\<lparr>store := (store c)[a := f (store c ! a)]\<rparr>"

section \<open>Errors\<close>

text \<open>\<^verbatim>\<open>rewriteError\<close> and \<^verbatim>\<open>createProtocolError\<close> (lines 332 to 353); \<open>target_closed\<close> is the
  call of \<^verbatim>\<open>rewriteError\<close> made in both closure routines (lines 178 and 315).\<close>

definition rewriteError :: "protocol_error \<Rightarrow> string \<Rightarrow> jsval \<Rightarrow> protocol_error" where
  "rewriteError err msg originalMessage =
     err\<lparr>pe_message := msg,
         pe_originalMessage := nullish_or originalMessage (pe_originalMessage err)\<rparr>"

definition createProtocolError :: "protocol_error \<Rightarrow> string \<Rightarrow> jsval \<Rightarrow> js_error + protocol_error" where
  "createProtocolError err meth object =
     bind_js (get_prop object ''error'') (\<lambda>oerr.
     bind_js (get_prop oerr ''message'') (\<lambda>omsg.
     bind_js (to_string omsg) (\<lambda>shown.
     bind_js (has_prop ''data'' oerr) (\<lambda>has_data.
       let msg = ''Protocol error ('' @ meth @ ''): '' @ shown
       in if has_data then
            bind_js (get_prop oerr ''data'') (\<lambda>odata.
            bind_js (to_string odata) (\<lambda>shown'.
              Inr (rewriteError err (msg @ '' '' @ shown') omsg)))
          else Inr (rewriteError err msg omsg)))))"

definition target_closed :: "callback \<Rightarrow> protocol_error" where
  "target_closed cb =
     rewriteError (cb_error cb) (''Protocol error ('' @ cb_method cb @ ''): Target closed.'') None"

text \<open>Modelled from the spec: the helper \<^verbatim>\<open>assert\<close> of \<^verbatim>\<open>./assert\<close> is not among the
  sources; the spec does not describe it, and it is taken as its name says: it throws
  when its argument is falsy.\<close>

definition assert :: "bool \<Rightarrow> js_error option" where
  "assert b = (if b then None else Some AssertionError)"

section \<open>Sending\<close>

text \<open>The promise a send returns: pending, to be settled through the entry registered
  under the given key in the owner's table, or rejected from the start. \<^verbatim>\<open>CDPSession.send\<close>
  is not asynchronous, so an error thrown while it builds its rejection reaches the caller
  as a throw, in place of a promise; \<^verbatim>\<open>CDPSession.detach\<close> is asynchronous, so whatever it
  throws rejects the promise it returns.\<close>

datatype promise = Pending owner jsval | Rejected js_error

text \<open>\<^verbatim>\<open>Connection._rawSend\<close>, \<^verbatim>\<open>Connection.send\<close> and \<^verbatim>\<open>CDPSession.send\<close>. The message
  of \<^verbatim>\<open>_rawSend\<close> is given by its three fields; \<^verbatim>\<open>JSON.stringify\<close> leaves out a field
  that is \<^verbatim>\<open>undefined\<close>.\<close>

definition rawSend :: "connection \<Rightarrow> jsval \<Rightarrow> string \<Rightarrow> jsval \<Rightarrow> nat \<times> connection" where
  "rawSend c sid meth params =
     (let id = lastId c + 1;
          c1 = c\<lparr>lastId := id\<rparr>
      in (id, do_effects c1
            [TransportSend \<lparr>out_sessionId = sid, out_method = meth,
                            out_params = params, out_id = id\<rparr>]))"

definition send :: "connection \<Rightarrow> string \<Rightarrow> jsval \<Rightarrow> promise \<times> connection" where
  "send c meth params =
     (let (id, c1) = rawSend c None meth params
      in (Pending Conn (num id),
          c1\<lparr>callbacks := map_set (callbacks c1) (num id)
                \<lparr>cb_error = new_ProtocolError, cb_method = meth\<rparr>\<rparr>))"

definition session_send ::
  "connection \<Rightarrow> nat \<Rightarrow> string \<Rightarrow> jsval \<Rightarrow> (js_error + promise) \<times> connection" where
  "session_send c a meth params =
     (let s = store c ! a in
      case s_connection s of
        None \<Rightarrow>
          (case to_string (s_targetType s) of
             Inl e \<Rightarrow> (Inl e, c)
           | Inr shown \<Rightarrow>
               (Inr (Rejected (Error (''Protocol error ('' @ meth
                       @ ''): Session closed. Most likely the '' @ shown
                       @ '' has been closed.''))), c))
      | Some conn \<Rightarrow>
          (let (id, c1) = rawSend c (s_sessionId s) meth params
           in (Inr (Pending (Sess a) (num id)),
               update_session c1 a (\<lambda>s. s\<lparr>s_callbacks := map_set (s_callbacks s) (num id)
                 \<lparr>cb_error = new_ProtocolError, cb_method = meth\<rparr>\<rparr>))))"

section \<open>Sessions: inbound messages and closure\<close>

text \<open>How a call ended: it returned, or it threw; the state is the one reached then.\<close>

datatype completion = Returned | Threw js_error

definition attempt ::
  "js_error + 'a \<Rightarrow> connection \<Rightarrow> ('a \<Rightarrow> completion \<times> connection) \<Rightarrow> completion \<times> connection" where
  "attempt m c f = (case m of Inl e \<Rightarrow> (Threw e, c) | Inr x \<Rightarrow> f x)"

text \<open>The \<^verbatim>\<open>else\<close> branch of \<^verbatim>\<open>CDPSession._onMessage\<close>: the assertion (line 293), and
  the emission that follows it (line 294).\<close>

definition session_emit :: "connection \<Rightarrow> nat \<Rightarrow> jsval \<Rightarrow> completion \<times> connection" where
  "session_emit c a object =
     attempt (get_prop object ''method'') c (\<lambda>m.
     attempt (get_prop object ''params'') c (\<lambda>p.
       (Returned, emit c (Sess a) (Named m) (Value p))))"

definition session_event :: "connection \<Rightarrow> nat \<Rightarrow> jsval \<Rightarrow> jsval \<Rightarrow> completion \<times> connection" where
  "session_event c a oid object =
     (case assert (\<not> truthy oid) of
        Some e \<Rightarrow> (Threw e, c)
      | None \<Rightarrow> session_emit c a object)"

text \<open>\<^verbatim>\<open>CDPSession._onMessage\<close>, \<^verbatim>\<open>CDPSession._onClosed\<close> and the synchronous part of
  \<^verbatim>\<open>CDPSession.detach\<close>, on the session object at address \<open>a\<close>.\<close>

definition session_onMessage :: "connection \<Rightarrow> nat \<Rightarrow> jsval \<Rightarrow> completion \<times> connection" where
  "session_onMessage c a object =
     attempt (get_prop object ''id'') c (\<lambda>oid.
       case (if truthy oid then map_get (s_callbacks (store c ! a)) oid else None) of
         None \<Rightarrow> session_event c a oid object
       | Some cb \<Rightarrow>
           if truthy oid then
             (let c1 = update_session c a
                         (\<lambda>s. s\<lparr>s_callbacks := map_delete (s_callbacks s) oid\<rparr>)
              in attempt (get_prop object ''error'') c1 (\<lambda>oerr.
                   if truthy oerr then
                     attempt (createProtocolError (cb_error cb) (cb_method cb) object) c1 (\<lambda>pe.
                       (Returned, do_effects c1 [Reject (Sess a) oid pe]))
                   else
                     attempt (get_prop object ''result'') c1 (\<lambda>res.
                       (Returned, do_effects c1 [Resolve (Sess a) oid res]))))
           else session_event c a oid object)"

definition session_onClosed :: "connection \<Rightarrow> nat \<Rightarrow> connection" where
  "session_onClosed c a =
     (let c1 = do_effects c
                 (map (\<lambda>(k, cb). Reject (Sess a) k (target_closed cb)) (s_callbacks (store c ! a)));
          c2 = update_session c1 a (\<lambda>s. s\<lparr>s_callbacks := [], s_connection := None\<rparr>)
      in emit c2 (Sess a) CDPSessionDisconnected NoArg)"

definition session_detach :: "connection \<Rightarrow> nat \<Rightarrow> promise \<times> connection" where
  "session_detach c a =
     (let s = store c ! a in
      case s_connection s of
        None \<Rightarrow>
          (case to_string (s_targetType s) of
             Inl e \<Rightarrow> (Rejected e, c)
           | Inr shown \<Rightarrow>
               (Rejected (Error (''Session already detached. Most likely the '' @ shown
                                 @ '' has been closed.'')), c))
      | Some conn \<Rightarrow>
          send c ''Target.detachFromTarget''
            (Some (JObj (case s_sessionId s of None \<Rightarrow> [] | Some v \<Rightarrow> [(''sessionId'', v)]))))"

section \<open>The Connection: inbound messages and closure\<close>

text \<open>\<^verbatim>\<open>Connection.session\<close>: the address of the session, or nothing for \<^verbatim>\<open>null\<close>.\<close>

definition session :: "connection \<Rightarrow> string \<Rightarrow> nat option" where
  "session c sessionId = map_get (sessions c) (str sessionId)"

text \<open>
  \<^verbatim>\<open>Connection.#onMessage\<close> on the parsed message. \<open>attachedToTarget\<close> and
  \<open>detachedFromTarget\<close> are the two branches of its first conditional (lines 119 to 143),
  \<open>structural\<close> is that conditional, and \<open>dispatch\<close> is its second conditional (lines 145
  to 165). Nothing is written before the first conditional can throw, so \<open>structural\<close>
  returns the error alone.
\<close>

definition attachedToTarget :: "connection \<Rightarrow> jsval \<Rightarrow> js_error + connection" where
  "attachedToTarget c object =
     bind_js (get_prop object ''params'') (\<lambda>params.
     bind_js (get_prop params ''sessionId'') (\<lambda>sessionId.
     bind_js (get_prop params ''targetInfo'') (\<lambda>targetInfo.
     bind_js (get_prop targetInfo ''type'') (\<lambda>targetType.
     bind_js (get_prop object ''sessionId'') (\<lambda>outer.
       let a = length (store c);
           s = \<lparr>s_sessionId = sessionId, s_targetType = targetType,
                s_callbacks = [], s_connection = Some ThisConnection\<rparr>;
           c1 = c\<lparr>store := store c @ [s]\<rparr>;
           c2 = c1\<lparr>sessions := map_set (sessions c1) sessionId a\<rparr>;
           c3 = emit c2 Conn (Named (str ''sessionattached'')) (SessionRef a)
       in Inr (case map_get (sessions c3) outer of
                 None \<Rightarrow> c3
               | Some p \<Rightarrow> emit c3 (Sess p) (Named (str ''sessionattached'')) (SessionRef a)))))))"

definition detachedFromTarget :: "connection \<Rightarrow> jsval \<Rightarrow> js_error + connection" where
  "detachedFromTarget c object =
     bind_js (get_prop object ''params'') (\<lambda>params.
     bind_js (get_prop params ''sessionId'') (\<lambda>sessionId.
       case map_get (sessions c) sessionId of
         None \<Rightarrow> Inr c
       | Some a \<Rightarrow>
           (let c1 = session_onClosed c a;
                c2 = c1\<lparr>sessions := map_delete (sessions c1) sessionId\<rparr>;
                c3 = emit c2 Conn (Named (str ''sessiondetached'')) (SessionRef a)
            in bind_js (get_prop object ''sessionId'') (\<lambda>outer.
                 Inr (case map_get (sessions c3) outer of
                        None \<Rightarrow> c3
                      | Some p \<Rightarrow>
                          emit c3 (Sess p) (Named (str ''sessiondetached'')) (SessionRef a))))))"

definition structural :: "connection \<Rightarrow> jsval \<Rightarrow> js_error + connection" where
  "structural c object =
     bind_js (get_prop object ''method'') (\<lambda>m.
       if m = str ''Target.attachedToTarget'' then attachedToTarget c object
       else if m = str ''Target.detachedFromTarget'' then detachedFromTarget c object
       else Inr c)"

definition dispatch :: "connection \<Rightarrow> jsval \<Rightarrow> completion \<times> connection" where
  "dispatch c object =
     attempt (get_prop object ''sessionId'') c (\<lambda>sid.
       if truthy sid then
         (case map_get (sessions c) sid of
            None \<Rightarrow> (Returned, c)
          | Some a \<Rightarrow> session_onMessage c a object)
       else
         attempt (get_prop object ''id'') c (\<lambda>oid.
           if truthy oid then
             (case map_get (callbacks c) oid of
                None \<Rightarrow> (Returned, c)
              | Some cb \<Rightarrow>
                  (let c1 = c\<lparr>callbacks := map_delete (callbacks c) oid\<rparr>
                   in attempt (get_prop object ''error'') c1 (\<lambda>oerr.
                        if truthy oerr then
                          attempt (createProtocolError (cb_error cb) (cb_method cb) object) c1
                            (\<lambda>pe. (Returned, do_effects c1 [Reject Conn oid pe]))
                        else
                          attempt (get_prop object ''result'') c1 (\<lambda>res.
                            (Returned, do_effects c1 [Resolve Conn oid res])))))
           else
             attempt (get_prop object ''method'') c (\<lambda>m.
             attempt (get_prop object ''params'') c (\<lambda>p.
               (Returned, emit c Conn (Named m) (Value p))))))"

definition onMessage :: "connection \<Rightarrow> jsval \<Rightarrow> completion \<times> connection" where
  "onMessage c object =
     (case structural c object of
        Inl e \<Rightarrow> (Threw e, c)
      | Inr c1 \<Rightarrow> dispatch c1 object)"

text \<open>The state after the router has processed a message.\<close>

abbreviation receive :: "connection \<Rightarrow> jsval \<Rightarrow> connection" where
  "receive c object \<equiv> snd (onMessage c object)"

text \<open>\<^verbatim>\<open>Connection.#onClose\<close> and \<^verbatim>\<open>Connection.dispose\<close>.\<close>

definition onClose :: "connection \<Rightarrow> connection" where
  "onClose c =
     (if closed c then c
      else
        (let c1 = c\<lparr>closed := True, hooked := False\<rparr>;
             c2 = do_effects c1
                    (map (\<lambda>(k, cb). Reject Conn k (target_closed cb)) (callbacks c1));
             c3 = c2\<lparr>callbacks := []\<rparr>;
             c4 = fold (\<lambda>a c. session_onClosed c a) (map_values (sessions c3)) c3;
             c5 = c4\<lparr>sessions := []\<rparr>
         in emit c5 Conn ConnectionDisconnected NoArg))"

definition dispose :: "connection \<Rightarrow> connection" where
  "dispose c = do_effects (onClose c) [TransportClose]"

text \<open>\<^verbatim>\<open>createSession\<close> is asynchronous: it sends the attach command, and resumes with the
  outcome of that command's promise in the state reached by then.\<close>

datatype outcome = Resolved jsval | RejectedWith protocol_error

datatype failure = Thrown js_error | Protocol protocol_error

definition createSession_send :: "connection \<Rightarrow> string \<Rightarrow> promise \<times> connection" where
  "createSession_send c targetId =
     send c ''Target.attachToTarget''
       (Some (JObj [(''targetId'', JStr targetId), (''flatten'', JBool True)]))"

definition createSession_resume :: "connection \<Rightarrow> outcome \<Rightarrow> failure + nat" where
  "createSession_resume c out =
     (case out of
        RejectedWith pe \<Rightarrow> Inl (Protocol pe)
      | Resolved res \<Rightarrow>
          (case get_prop res ''sessionId'' of
             Inl e \<Rightarrow> Inl (Thrown e)
           | Inr sessionId \<Rightarrow>
               (case map_get (sessions c) sessionId of
                  None \<Rightarrow> Inl (Thrown (Error ''CDPSession creation failed.''))
                | Some a \<Rightarrow> Inr a)))"

section \<open>Runs\<close>

text \<open>
  What the callers and the transport can do to a Connection. The transport calls its hooks
  only while they are set; a call on a session names a session object of the store.
\<close>

datatype op =
    Send string jsval
  | SessionSend nat string jsval
  | SessionDetach nat
  | CreateSession string
  | Dispose
  | TransportMessage jsval
  | TransportClosed

text \<open>An operation, with the promise it returns to its caller, if any: none when the
  operation returns no promise, or throws.\<close>

fun perform :: "connection \<Rightarrow> op \<Rightarrow> promise option \<times> connection" where
  "perform c (Send m p) = (let (r, c') = send c m p in (Some r, c'))"
| "perform c (SessionSend a m p) =
     (if a < length (store c) then
        (case session_send c a m p of
           (Inl e, c') \<Rightarrow> (None, c')
         | (Inr r, c') \<Rightarrow> (Some r, c'))
      else (None, c))"
| "perform c (SessionDetach a) =
     (if a < length (store c) then (let (r, c') = session_detach c a in (Some r, c'))
      else (None, c))"
| "perform c (CreateSession t) = (let (r, c') = createSession_send c t in (Some r, c'))"
| "perform c Dispose = (None, dispose c)"
| "perform c (TransportMessage object) =
     (if hooked c then (None, snd (onMessage c object)) else (None, c))"
| "perform c TransportClosed = (if hooked c then (None, onClose c) else (None, c))"

definition step :: "connection \<Rightarrow> op \<Rightarrow> connection" where
  "step c x = snd (perform c x)"

definition run :: "connection \<Rightarrow> op list \<Rightarrow> connection" where
  "run c ops = foldl step c ops"

text \<open>The ids handed to the callers, in the order of the calls: the keys under which the
  pending promises are registered.\<close>

fun handed :: "promise option \<Rightarrow> jsval list" where
  "handed (Some (Pending w k)) = [k]"
| "handed r = []"

fun handed_out :: "connection \<Rightarrow> op list \<Rightarrow> jsval list" where
  "handed_out c [] = []"
| "handed_out c (x # xs) = handed (fst (perform c x)) @ handed_out (step c x) xs"

text \<open>The ids put on the wire, in order.\<close>

fun sent_id :: "effect \<Rightarrow> nat list" where
  "sent_id (TransportSend m) = [out_id m]"
| "sent_id e = []"

definition sent_ids :: "connection \<Rightarrow> nat list" where
  "sent_ids c = concat (map sent_id (trace c))"

definition issued :: "connection \<Rightarrow> nat \<times> nat list" where
  "issued c = (lastId c, sent_ids c)"

section \<open>Notions used in the statements\<close>

text \<open>An operation either issues no id, or hands out the successor of the counter,
  which \<open>rawSend\<close> stores in the counter and puts on the wire.\<close>

definition issues_none :: "connection \<Rightarrow> op \<Rightarrow> bool" where
  "issues_none c x \<longleftrightarrow> handed (fst (perform c x)) = [] \<and> issued (step c x) = issued c"

definition issues_next :: "connection \<Rightarrow> op \<Rightarrow> bool" where
  "issues_next c x \<longleftrightarrow>
     handed (fst (perform c x)) = [num (Suc (lastId c))] \<and>
     issued (step c x) = (Suc (lastId c), sent_ids c @ [Suc (lastId c)])"



text \<open>The addresses of the live sessions, in the order of the session map.\<close>

definition live :: "connection \<Rightarrow> nat list" where
  "live c = map_values (sessions c)"

text \<open>Every session of the map is an object of the store, no object is registered
  twice, and no key that is compared by value occurs twice.\<close>

definition well_formed :: "connection \<Rightarrow> bool" where
  "well_formed c \<longleftrightarrow>
     distinct (live c) \<and> list_all (\<lambda>a. a < length (store c)) (live c) \<and>
     distinct (filter (\<lambda>k. \<not> by_reference k) (map fst (sessions c)))"

text \<open>What the closure routine of a session does to its collaborators.\<close>

definition closing_effects :: "cdp_session \<Rightarrow> nat \<Rightarrow> effect list" where
  "closing_effects s a =
     map (\<lambda>(k, cb). Reject (Sess a) k (target_closed cb)) (s_callbacks s) @
     [Emit (Sess a) CDPSessionDisconnected NoArg]"

definition closed_session :: "cdp_session \<Rightarrow> cdp_session" where
  "closed_session s = s\<lparr>s_callbacks := [], s_connection := None\<rparr>"

text \<open>Whether an effect settles a pending call of the given owner.\<close>

fun settles :: "owner \<Rightarrow> effect \<Rightarrow> bool" where
  "settles w (Resolve w' k v) = (w' = w)"
| "settles w (Reject w' k pe) = (w' = w)"
| "settles w e = False"

definition settlements :: "owner \<Rightarrow> connection \<Rightarrow> effect list" where
  "settlements w c = filter (settles w) (trace c)"

text \<open>Whether an operation delivers an attach notification that carries the session id.\<close>

fun attaches :: "string \<Rightarrow> op \<Rightarrow> bool" where
  "attaches S (TransportMessage object) =
     (get_prop object ''method'' = Inr (str ''Target.attachedToTarget'') \<and>
      (case get_prop object ''params'' of
         Inl e \<Rightarrow> False
       | Inr params \<Rightarrow> get_prop params ''sessionId'' = Inr (str S)))"
| "attaches S x = False"

text \<open>The session that an attach notification for \<open>S\<close> has constructed at address \<open>n\<close>,
  for as long as no other attach notification for \<open>S\<close> arrives: it is registered under
  \<open>S\<close>, or it has been closed and nothing is registered under \<open>S\<close>.\<close>

definition attached_or_closed :: "connection \<Rightarrow> string \<Rightarrow> nat \<Rightarrow> bool" where
  "attached_or_closed c S n \<longleftrightarrow>
     well_formed c \<and> n < length (store c) \<and>
     (session c S = Some n \<or>
      session c S = None \<and> n \<notin> set (live c) \<and>
      s_connection (store c ! n) = None \<and> s_callbacks (store c ! n) = [])"

section \<open>Example states and envelopes\<close>

definition attached_notification :: "string \<Rightarrow> string \<Rightarrow> (string \<times> json) list" where
  "attached_notification sid kind =
     [(''method'', JStr ''Target.attachedToTarget''),
      (''params'', JObj [(''sessionId'', JStr sid), (''targetInfo'', JObj [(''type'', JStr kind)])])]"

definition detached_notification :: "string \<Rightarrow> (string \<times> json) list" where
  "detached_notification sid =
     [(''method'', JStr ''Target.detachedFromTarget''),
      (''params'', JObj [(''sessionId'', JStr sid)])]"

definition pending_demo :: connection where
  "pending_demo = run (new_Connection ''ws'')
     [TransportMessage (Some (JObj (attached_notification ''S1'' ''page''))),
      SessionSend 0 ''Page.enable'' None,
      Send ''Foo.bar'' None]"

definition detached_demo :: connection where
  "detached_demo = run (new_Connection ''ws'')
     [TransportMessage (Some (JObj (attached_notification ''S1'' ''page''))),
      TransportMessage (Some (JObj (detached_notification ''S1'')))]"

definition untyped_demo :: connection where
  "untyped_demo = run (new_Connection ''ws'')
     [TransportMessage (Some (JObj
        [(''method'', JStr ''Target.attachedToTarget''),
         (''params'', JObj [(''sessionId'', JStr ''S1''),
                            (''targetInfo'', JObj [(''type'', JObj [(''toString'', jnum 1)])])])])),
      TransportMessage (Some (JObj (detached_notification ''S1'')))]"

definition sent_demo :: connection where
  "sent_demo = run (new_Connection ''ws'') [Send ''Page.enable'' None]"

definition created_demo :: "op list" where
  "created_demo =
     [CreateSession ''T1'',
      TransportMessage (Some (JObj (attached_notification ''S1'' ''page''))),
      TransportMessage (Some (JObj [(''id'', jnum 1), (''result'', JObj [(''sessionId'', JStr ''S1'')])]))]"

definition nine_sends :: connection where
  "nine_sends = run (new_Connection ''ws'') (replicate 8 (Send ''A.b'' None) @ [Send ''Foo.bar'' None])"

definition replace_demo :: connection where
  "replace_demo = run (new_Connection ''ws'')
     [TransportMessage (Some (JObj (attached_notification ''S1'' ''page''))),
      SessionSend 0 ''Page.enable'' None]"

definition three_pending :: connection where
  "three_pending = run (new_Connection ''ws'')
     [TransportMessage (Some (JObj (attached_notification ''S1'' ''page''))),
      TransportMessage (Some (JObj (attached_notification ''S2'' ''worker''))),
      Send ''Target.getTargets'' None,
      SessionSend 0 ''Page.enable'' None,
      SessionSend 1 ''Runtime.enable'' None]"

definition replaced_demo :: connection where
  "replaced_demo = run (new_Connection ''ws'')
     [TransportMessage (Some (JObj (attached_notification ''S1'' ''page''))),
      SessionSend 0 ''Page.enable'' None,
      TransportMessage (Some (JObj (attached_notification ''S1'' ''page'')))]"

section \<open>The shared id counter\<close>

lemma issued_upd [simp]:
  "issued (c\<lparr>sessions := s\<rparr>) = issued c"
  "issued (c\<lparr>callbacks := cb\<rparr>) = issued c"
  "issued (c\<lparr>closed := b\<rparr>) = issued c"
  "issued (c\<lparr>hooked := b\<rparr>) = issued c"
  "issued (c\<lparr>store := st\<rparr>) = issued c"
  by (simp_all add: issued_def sent_ids_def)

lemma issued_emit [simp]: "issued (emit c w ev a) = issued c"
  by (simp add: issued_def sent_ids_def emit_def do_effects_def)

lemma issued_update_session [simp]: "issued (update_session c a f) = issued c"
  by (simp add: update_session_def)

lemma issued_settle [simp]:
  "issued (do_effects c [Reject w k pe]) = issued c"
  "issued (do_effects c [Resolve w k v]) = issued c"
  "issued (do_effects c [TransportClose]) = issued c"
  "issued (do_effects c (map (\<lambda>(k, cb). Reject w k (f cb)) m)) = issued c"
  by (simp_all add: issued_def sent_ids_def do_effects_def split_def comp_def)

lemma issued_session_onClosed [simp]: "issued (session_onClosed c a) = issued c"
  by (simp add: session_onClosed_def Let_def)

lemma issued_fold_onClosed [simp]:
  "issued (fold (\<lambda>a c. session_onClosed c a) as c) = issued c"
  by (induction as arbitrary: c) simp_all

lemma issued_onClose [simp]: "issued (onClose c) = issued c"
  by (simp add: onClose_def Let_def)

lemma issued_dispose [simp]: "issued (dispose c) = issued c"
  by (simp add: dispose_def)

lemma issued_session_event [simp]: "issued (snd (session_event c a oid obj)) = issued c"
  by (auto simp: session_event_def session_emit_def attempt_def split: option.splits sum.splits)

lemma issued_session_onMessage [simp]: "issued (snd (session_onMessage c a obj)) = issued c"
  by (auto simp: session_onMessage_def attempt_def Let_def split: option.splits sum.splits)

lemma issued_attached: "attachedToTarget c obj = Inr c' \<Longrightarrow> issued c' = issued c"
  by (auto simp: attachedToTarget_def bind_js_def Let_def split: option.splits sum.splits)

lemma issued_detached: "detachedFromTarget c obj = Inr c' \<Longrightarrow> issued c' = issued c"
  by (auto simp: detachedFromTarget_def bind_js_def Let_def split: option.splits sum.splits)

lemma issued_structural: "structural c obj = Inr c' \<Longrightarrow> issued c' = issued c"
  by (auto simp: structural_def bind_js_def issued_attached issued_detached
           split: sum.splits if_splits)

lemma issued_dispatch [simp]: "issued (snd (dispatch c obj)) = issued c"
  by (auto simp: dispatch_def attempt_def Let_def split: option.splits sum.splits)

lemma issued_onMessage [simp]: "issued (snd (onMessage c obj)) = issued c"
  by (auto simp: onMessage_def issued_structural split: sum.splits)

lemma issued_rawSend:
  "rawSend c sid m p = (i, c') \<Longrightarrow> i = Suc (lastId c) \<and> issued c' = (i, sent_ids c @ [i])"
  by (auto simp add: rawSend_def Let_def issued_def sent_ids_def do_effects_def)

lemma send_issues:
  "send c m p = (r, c') \<Longrightarrow>
     r = Pending Conn (num (Suc (lastId c))) \<and>
     issued c' = (Suc (lastId c), sent_ids c @ [Suc (lastId c)])"
  by (auto simp: send_def split: prod.splits dest: issued_rawSend)

lemma session_send_issues:
  "session_send c a m p = (r, c') \<Longrightarrow>
     ((\<exists>e. r = Inl e \<or> r = Inr (Rejected e)) \<and> c' = c) \<or>
     (r = Inr (Pending (Sess a) (num (Suc (lastId c)))) \<and>
      issued c' = (Suc (lastId c), sent_ids c @ [Suc (lastId c)]))"
  by (auto simp: session_send_def Let_def split: option.splits sum.splits prod.splits
           dest: issued_rawSend)

lemma session_detach_issues:
  "session_detach c a = (r, c') \<Longrightarrow>
     (\<exists>e. r = Rejected e \<and> c' = c) \<or>
     (r = Pending Conn (num (Suc (lastId c))) \<and>
      issued c' = (Suc (lastId c), sent_ids c @ [Suc (lastId c)]))"
  by (auto simp: session_detach_def Let_def split: option.splits sum.splits dest: send_issues)

lemma perform_issues: "issues_none c x \<or> issues_next c x"
proof (cases x)
  case (Send m p)
  obtain r c' where "send c m p = (r, c')" by (cases "send c m p")
  with Send send_issues[of c m p r c'] show ?thesis
    by (simp add: issues_next_def step_def)
next
  case (SessionSend a m p)
  obtain r c' where "session_send c a m p = (r, c')" by (cases "session_send c a m p")
  with SessionSend session_send_issues[of c a m p r c'] show ?thesis
    by (auto simp add: issues_next_def issues_none_def step_def)
next
  case (SessionDetach a)
  obtain r c' where "session_detach c a = (r, c')" by (cases "session_detach c a")
  with SessionDetach session_detach_issues[of c a r c'] show ?thesis
    by (auto simp add: issues_next_def issues_none_def step_def)
next
  case (CreateSession t)
  obtain r c' where "send c ''Target.attachToTarget''
       (Some (JObj [(''targetId'', JStr t), (''flatten'', JBool True)])) = (r, c')" 
    by (cases "send c ''Target.attachToTarget''
       (Some (JObj [(''targetId'', JStr t), (''flatten'', JBool True)]))")
  with CreateSession send_issues[OF this] show ?thesis
    by (simp add: issues_next_def step_def createSession_send_def)
qed (simp_all add: issues_none_def step_def)

lemma run_Cons: "run c (x # xs) = run (step c x) xs"
  by (simp add: run_def)

lemma lastId_run_mono: "lastId c \<le> lastId (run c ops)"
proof (induction ops arbitrary: c)
  case Nil show ?case by (simp add: run_def)
next
  case (Cons x xs)
  have "lastId c \<le> lastId (step c x)"
    using perform_issues[of c x] by (auto simp: issues_none_def issues_next_def issued_def)
  with Cons[of "step c x"] show ?case by (simp add: run_Cons)
qed

lemma run_issues:
  "handed_out c ops = map num [Suc (lastId c)..<Suc (lastId (run c ops))] \<and>
   sent_ids (run c ops) = sent_ids c @ [Suc (lastId c)..<Suc (lastId (run c ops))]"
proof (induction ops arbitrary: c)
  case Nil show ?case by (simp add: run_def)
next
  case (Cons x xs)
  note IH = Cons[of "step c x"]
  from perform_issues[of c x] show ?case
  proof
    assume "issues_none c x"
    with IH show ?thesis by (simp add: issues_none_def issued_def run_Cons)
  next
    assume n: "issues_next c x"
    hence l: "lastId (step c x) = Suc (lastId c)" by (simp add: issues_next_def issued_def)
    have "Suc (lastId c) \<le> lastId (run (step c x) xs)"
      using lastId_run_mono[of "step c x" xs] l by simp
    hence "[Suc (lastId c)..<Suc (lastId (run (step c x) xs))] =
           Suc (lastId c) # [Suc (Suc (lastId c))..<Suc (lastId (run (step c x) xs))]"
      by (simp add: upt_conv_Cons)
    with IH n l show ?thesis by (simp add: issues_next_def issued_def run_Cons)
  qed
qed

text \<open>
  Claim C1. Whatever the callers and the transport do to a new Connection, in any order,
  the ids handed to the callers by the sends of the Connection and of its sessions are
  the ids that \<open>rawSend\<close> took from the one counter and put on the wire, and these are
  \<open>1, 2, \<dots>\<close> up to the present value of the counter: pairwise distinct and strictly
  increasing in the order of the calls.
\<close>

theorem ids_unique_increasing:
  "handed_out (new_Connection u) ops = map num (sent_ids (run (new_Connection u) ops)) \<and>
   sent_ids (run (new_Connection u) ops) = [1..<Suc (lastId (run (new_Connection u) ops))] \<and>
   sorted_wrt (<) (sent_ids (run (new_Connection u) ops)) \<and>
   distinct (sent_ids (run (new_Connection u) ops))"
proof -
  have 0: "lastId (new_Connection u) = 0" "sent_ids (new_Connection u) = []"
    by (simp_all add: new_Connection_def sent_ids_def)
  have s: "sent_ids (run (new_Connection u) ops) = [1..<Suc (lastId (run (new_Connection u) ops))]"
    using run_issues[of "new_Connection u" ops] 0 by simp
  have h: "handed_out (new_Connection u) ops = map num [1..<Suc (lastId (run (new_Connection u) ops))]"
    using run_issues[of "new_Connection u" ops] 0 by simp
  have so: "sorted_wrt (<) [1..<Suc (lastId (run (new_Connection u) ops))]"
    by (rule sorted_wrt_upt)
  have d: "distinct [1..<Suc (lastId (run (new_Connection u) ops))]"
    by (rule distinct_upt)
  show ?thesis unfolding s using h so d by (simp del: upt_Suc)
qed

theorem ids_unique_increasing_witness:
  "handed_out (new_Connection ''ws'')
     [Send ''Target.getTargets'' None,
      TransportMessage (Some (JObj [(''method'', JStr ''Target.attachedToTarget''),
        (''params'', JObj [(''sessionId'', JStr ''S1''),
                           (''targetInfo'', JObj [(''type'', JStr ''page'')])])])),
      SessionSend 0 ''Page.enable'' None,
      SessionDetach 0] = [num 1, num 2, num 3]"
proof -
  have "sent_ids (run (new_Connection ''ws'')
     [Send ''Target.getTargets'' None,
      TransportMessage (Some (JObj [(''method'', JStr ''Target.attachedToTarget''),
        (''params'', JObj [(''sessionId'', JStr ''S1''),
                           (''targetInfo'', JObj [(''type'', JStr ''page'')])])])),
      SessionSend 0 ''Page.enable'' None,
      SessionDetach 0]) = [1, 2, 3]"
    by code_simp
  with ids_unique_increasing[of "''ws''"
     "[Send ''Target.getTargets'' None,
      TransportMessage (Some (JObj [(''method'', JStr ''Target.attachedToTarget''),
        (''params'', JObj [(''sessionId'', JStr ''S1''),
                           (''targetInfo'', JObj [(''type'', JStr ''page'')])])])),
      SessionSend 0 ''Page.enable'' None,
      SessionDetach 0]"]
  show ?thesis by simp
qed

section \<open>Responses on the Connection\<close>

lemma truthy_jnum [simp]: "truthy (Some (jnum n)) \<longleftrightarrow> n \<noteq> 0"
  by (simp add: jnum_def)

lemma map_get_delete:
  "map_get (map_delete m k) k' = (if k' = k then None else map_get m k')"
proof (induction m)
  case Nil show ?case by (simp add: map_get_def map_delete_def)
next
  case (Cons x m) thus ?case
    by (cases x) (auto simp: map_get_def map_delete_def)
qed

lemma structural_other:
  "get_prop object ''method'' = Inr m \<Longrightarrow> m \<noteq> str ''Target.attachedToTarget'' \<Longrightarrow>
   m \<noteq> str ''Target.detachedFromTarget'' \<Longrightarrow> structural c object = Inr c"
  by (simp add: structural_def bind_js_def)

lemma onMessage_other:
  "get_prop object ''method'' = Inr m \<Longrightarrow> m \<noteq> str ''Target.attachedToTarget'' \<Longrightarrow>
   m \<noteq> str ''Target.detachedFromTarget'' \<Longrightarrow> onMessage c object = dispatch c object"
  by (simp add: onMessage_def structural_other)

lemma createProtocolError_object:
  assumes "get_prop object ''error'' = Inr (Some (JObj e))"
    and "to_string (map_of e ''message'') = Inr shown"
    and "to_string (map_of e ''data'') = Inr shown'"
  shows "createProtocolError err meth object =
     Inr (rewriteError err
       (''Protocol error ('' @ meth @ ''): '' @ shown @
        (if map_of e ''data'' = None then [] else '' '' @ shown'))
       (map_of e ''message''))"
  using assms by (auto simp: createProtocolError_def bind_js_def Let_def)

lemma protocol_error_text:
  "sublist meth (pe_message (rewriteError err
       (''Protocol error ('' @ meth @ ''): '' @ msg @ rest) om))"
  "sublist msg (pe_message (rewriteError err
       (''Protocol error ('' @ meth @ ''): '' @ msg @ rest) om))"
proof -
  have "sublist meth (''Protocol error ('' @ meth @ (''): '' @ msg @ rest))"
    by (rule sublist_appendI)
  thus "sublist meth (pe_message (rewriteError err
       (''Protocol error ('' @ meth @ ''): '' @ msg @ rest) om))"
    by (simp add: rewriteError_def)
  have "sublist msg ((''Protocol error ('' @ meth @ ''): '') @ msg @ rest)"
    by (rule sublist_appendI)
  thus "sublist msg (pe_message (rewriteError err
       (''Protocol error ('' @ meth @ ''): '' @ msg @ rest) om))"
    by (simp add: rewriteError_def)
qed

lemma protocol_error_data:
  "sublist d (pe_message (rewriteError err
       (''Protocol error ('' @ meth @ ''): '' @ msg @ '' '' @ d) om))"
proof -
  have "sublist d ((''Protocol error ('' @ meth @ ''): '' @ msg @ '' '') @ d)"
    by (rule sublist_append_leftI)
  thus ?thesis by (simp add: rewriteError_def)
qed

text \<open>
  Claim C9, as amended. Take an envelope whose method is neither of the two reserved
  notifications, that carries an id (a truthy one, as the test \<^verbatim>\<open>if (object.id)\<close> asks)
  and no session id, and whose id has no entry in the Connection's table. The router
  returns without error and leaves the whole state as it was: no pending call is settled
  and no event is emitted (the trace is unchanged), and the session map, every
  pending-call table and the id counter are unchanged.
\<close>

theorem unmatched_id_ignored:
  assumes "get_prop object ''method'' = Inr m"
    and "m \<noteq> str ''Target.attachedToTarget''" and "m \<noteq> str ''Target.detachedFromTarget''"
    and "get_prop object ''sessionId'' = Inr sid" and "\<not> truthy sid"
    and "get_prop object ''id'' = Inr oid" and "truthy oid"
    and "map_get (callbacks c) oid = None"
  shows "onMessage c object = (Returned, c)"
  using assms by (simp add: onMessage_other dispatch_def attempt_def)

theorem unmatched_id_ignored_witness:
  "onMessage pending_demo (Some (JObj [(''id'', jnum 7), (''result'', JObj [])])) =
     (Returned, pending_demo)"
proof -
  let ?env = "Some (JObj [(''id'', jnum 7), (''result'', JObj [])])"
  have h1: "get_prop ?env ''method'' = Inr None" by simp
  have h2: "None \<noteq> str ''Target.attachedToTarget''" "None \<noteq> str ''Target.detachedFromTarget''"
    by (simp_all add: str_def)
  have h3: "get_prop ?env ''sessionId'' = Inr None" "\<not> truthy None" by simp_all
  have h4: "get_prop ?env ''id'' = Inr (num 7)" "truthy (num 7)" by (simp_all add: num_def)
  have h5: "map_get (callbacks pending_demo) (num 7) = None" by code_simp
  show ?thesis
    by (rule unmatched_id_ignored[OF h1 h2 h3 h4 h5])
qed

text \<open>
  The claim C9 as stated fails on an envelope that carries an unmatched id and is also an
  attach notification: the router registers a session and emits an event.
\<close>

theorem unmatched_id_counterexample:
  "get_prop (Some (JObj ((''id'', jnum 7) # attached_notification ''S1'' ''page''))) ''id'' = Inr (num 7) \<and>
   get_prop (Some (JObj ((''id'', jnum 7) # attached_notification ''S1'' ''page''))) ''sessionId'' = Inr None \<and>
   map_get (callbacks (new_Connection ''ws'')) (num 7) = None \<and>
   session (new_Connection ''ws'') ''S1'' = None \<and>
   session (snd (onMessage (new_Connection ''ws'')
      (Some (JObj ((''id'', jnum 7) # attached_notification ''S1'' ''page''))))) ''S1'' = Some 0 \<and>
   trace (snd (onMessage (new_Connection ''ws'')
      (Some (JObj ((''id'', jnum 7) # attached_notification ''S1'' ''page''))))) =
     [Emit Conn (Named (str ''sessionattached'')) (SessionRef 0)]"
  by code_simp

text \<open>
  Claim C2, as amended. Take an envelope whose method is neither of the two reserved
  notifications, that carries an id (a truthy one) and no session id, and whose id has an
  entry in the Connection's table. The router removes that entry and no other, and leaves
  the tables of the sessions as they are. It settles the entry once: when the envelope has
  no error, or a falsy one, it resolves with the envelope's \<open>result\<close>; when the error is an
  object whose \<open>message\<close>, and whose \<open>data\<close> when it has one, can be converted to a string
  (as every value can but an object with a \<open>toString\<close> property of its own, or an array
  holding one), it rejects with a text that contains the method of the call, the converted
  \<open>message\<close> and, when the error has a \<open>data\<close>, that too, converted; and then nothing else
  changes.
\<close>

theorem response_settles_pending_call:
  assumes "get_prop object ''method'' = Inr m"
    and "m \<noteq> str ''Target.attachedToTarget''" and "m \<noteq> str ''Target.detachedFromTarget''"
    and "get_prop object ''sessionId'' = Inr sid" and "\<not> truthy sid"
    and "get_prop object ''id'' = Inr oid" and "truthy oid"
    and "map_get (callbacks c) oid = Some cb"
    and "get_prop object ''error'' = Inr oerr" and "get_prop object ''result'' = Inr res"
  shows "(\<not> truthy oerr \<longrightarrow>
            onMessage c object =
              (Returned, do_effects (c\<lparr>callbacks := map_delete (callbacks c) oid\<rparr>)
                           [Resolve Conn oid res])) \<and>
         (\<forall>e shown shown'.
            oerr = Some (JObj e) \<and> to_string (map_of e ''message'') = Inr shown \<and>
            to_string (map_of e ''data'') = Inr shown' \<longrightarrow>
            (\<exists>pe. onMessage c object =
                     (Returned, do_effects (c\<lparr>callbacks := map_delete (callbacks c) oid\<rparr>)
                                  [Reject Conn oid pe]) \<and>
                   sublist (cb_method cb) (pe_message pe) \<and>
                   sublist shown (pe_message pe) \<and>
                   (map_of e ''data'' \<noteq> None \<longrightarrow> sublist shown' (pe_message pe)))) \<and>
         callbacks (receive c object) = map_delete (callbacks c) oid \<and>
         store (receive c object) = store c \<and>
         (\<forall>k. map_get (map_delete (callbacks c) oid) k =
                (if k = oid then None else map_get (callbacks c) k))"
proof (intro conjI allI impI)
  show "callbacks (receive c object) = map_delete (callbacks c) oid"
    using assms
    by (simp add: onMessage_other dispatch_def attempt_def Let_def do_effects_def
             split: sum.splits)
  show "store (receive c object) = store c"
    using assms
    by (simp add: onMessage_other dispatch_def attempt_def Let_def do_effects_def
             split: sum.splits)
next
  assume "\<not> truthy oerr"
  with assms show "onMessage c object =
              (Returned, do_effects (c\<lparr>callbacks := map_delete (callbacks c) oid\<rparr>)
                           [Resolve Conn oid res])"
    by (simp add: onMessage_other dispatch_def attempt_def Let_def)
next
  fix e shown shown'
  assume "oerr = Some (JObj e) \<and> to_string (map_of e ''message'') = Inr shown \<and>
            to_string (map_of e ''data'') = Inr shown'"
  hence e: "oerr = Some (JObj e)" and sm: "to_string (map_of e ''message'') = Inr shown"
    and sd: "to_string (map_of e ''data'') = Inr shown'" by simp_all
  let ?pe = "rewriteError (cb_error cb)
       (''Protocol error ('' @ cb_method cb @ ''): '' @ shown @
        (if map_of e ''data'' = None then [] else '' '' @ shown'))
       (map_of e ''message'')"
  have eo: "get_prop object ''error'' = Inr (Some (JObj e))" using assms(9) e by simp
  have cpe: "createProtocolError (cb_error cb) (cb_method cb) object = Inr ?pe"
    by (rule createProtocolError_object[OF eo sm sd])
  have 1: "onMessage c object =
      (Returned, do_effects (c\<lparr>callbacks := map_delete (callbacks c) oid\<rparr>) [Reject Conn oid ?pe])"
    using assms e cpe by (simp add: onMessage_other dispatch_def attempt_def Let_def)
  have 2: "sublist (cb_method cb) (pe_message ?pe)"
    by (rule protocol_error_text)
  have 3: "sublist shown (pe_message ?pe)"
    by (rule protocol_error_text)
  have 4: "map_of e ''data'' \<noteq> None \<longrightarrow> sublist shown' (pe_message ?pe)"
    using protocol_error_data by simp
  from 1 2 3 4 show "\<exists>pe. onMessage c object =
                     (Returned, do_effects (c\<lparr>callbacks := map_delete (callbacks c) oid\<rparr>)
                                  [Reject Conn oid pe]) \<and>
                   sublist (cb_method cb) (pe_message pe) \<and>
                   sublist shown (pe_message pe) \<and>
                   (map_of e ''data'' \<noteq> None \<longrightarrow> sublist shown' (pe_message pe))"
    by blast
next
  fix k show "map_get (map_delete (callbacks c) oid) k =
                (if k = oid then None else map_get (callbacks c) k)"
    by (rule map_get_delete)
qed

theorem response_settles_pending_call_witness:
  "onMessage nine_sends
     (Some (JObj [(''id'', jnum 9), (''error'', JObj [(''message'', JStr ''boom''), (''code'', jnum (- 1))])])) =
   (Returned, do_effects (nine_sends\<lparr>callbacks := map_delete (callbacks nine_sends) (num 9)\<rparr>)
      [Reject Conn (num 9)
         \<lparr>pe_message = ''Protocol error (Foo.bar): boom'', pe_originalMessage = str ''boom''\<rparr>]) \<and>
   onMessage nine_sends (Some (JObj [(''id'', jnum 7), (''result'', JObj [(''x'', jnum 1)])])) =
   (Returned, do_effects (nine_sends\<lparr>callbacks := map_delete (callbacks nine_sends) (num 7)\<rparr>)
      [Resolve Conn (num 7) (Some (JObj [(''x'', jnum 1)]))])"
proof -
  let ?e9 = "Some (JObj [(''id'', jnum 9), (''error'', JObj [(''message'', JStr ''boom''), (''code'', jnum (- 1))])])"
  let ?e7 = "Some (JObj [(''id'', jnum 7), (''result'', JObj [(''x'', jnum 1)])])"
  have m: "get_prop ?e9 ''method'' = Inr None" "get_prop ?e7 ''method'' = Inr None" by simp_all
  have r: "None \<noteq> str ''Target.attachedToTarget''" "None \<noteq> str ''Target.detachedFromTarget''"
    by (simp_all add: str_def)
  have s: "get_prop ?e9 ''sessionId'' = Inr None" "get_prop ?e7 ''sessionId'' = Inr None"
    "\<not> truthy None" by simp_all
  have i9: "get_prop ?e9 ''id'' = Inr (num 9)" "truthy (num 9)" by (simp_all add: num_def)
  have i7: "get_prop ?e7 ''id'' = Inr (num 7)" "truthy (num 7)" by (simp_all add: num_def)
  have c9: "map_get (callbacks nine_sends) (num 9) =
     Some \<lparr>cb_error = new_ProtocolError, cb_method = ''Foo.bar''\<rparr>" by code_simp
  have c7: "map_get (callbacks nine_sends) (num 7) =
     Some \<lparr>cb_error = new_ProtocolError, cb_method = ''A.b''\<rparr>" by code_simp
  have e9: "get_prop ?e9 ''error'' = Inr (Some (JObj [(''message'', JStr ''boom''), (''code'', jnum (- 1))]))"
    "get_prop ?e9 ''result'' = Inr None" by simp_all
  have e7: "get_prop ?e7 ''error'' = Inr None"
    "get_prop ?e7 ''result'' = Inr (Some (JObj [(''x'', jnum 1)]))" by simp_all
  from response_settles_pending_call[OF m(2) r s(2) s(3) i7 c7 e7]
  have a: "onMessage nine_sends ?e7 =
     (Returned, do_effects (nine_sends\<lparr>callbacks := map_delete (callbacks nine_sends) (num 7)\<rparr>)
        [Resolve Conn (num 7) (Some (JObj [(''x'', jnum 1)]))])"
    by simp
  have t9: "to_string (map_of [(''message'', JStr ''boom''), (''code'', jnum (- 1))] ''message'') = Inr ''boom''"
    "to_string (map_of [(''message'', JStr ''boom''), (''code'', jnum (- 1))] ''data'') = Inr ''undefined''"
    by simp_all
  from response_settles_pending_call[OF m(1) r s(1) s(3) i9 c9 e9] t9
  obtain pe where pe: "onMessage nine_sends ?e9 =
     (Returned, do_effects (nine_sends\<lparr>callbacks := map_delete (callbacks nine_sends) (num 9)\<rparr>)
        [Reject Conn (num 9) pe])"
    by blast
  have "trace (snd (onMessage nine_sends ?e9)) = trace nine_sends @
      [Reject Conn (num 9)
         \<lparr>pe_message = ''Protocol error (Foo.bar): boom'', pe_originalMessage = str ''boom''\<rparr>]"
    by code_simp
  with pe have "pe = \<lparr>pe_message = ''Protocol error (Foo.bar): boom'', pe_originalMessage = str ''boom''\<rparr>"
    by (simp add: do_effects_def)
  with pe a show ?thesis by simp
qed

text \<open>
  The claim C2 as stated fails on an envelope that carries a matched id and is also a
  detach notification: besides the matched call, the router rejects the pending call of
  the session that the notification names. It fails too on an envelope whose error has a
  \<open>data\<close> that cannot be converted to a string: the conversion throws when the router has
  removed the entry, and the call is not settled.
\<close>

theorem response_settles_counterexample:
  "get_prop (Some (JObj ((''id'', jnum 2) # (''result'', JObj []) # detached_notification ''S1''))) ''id''
     = Inr (num 2) \<and>
   get_prop (Some (JObj ((''id'', jnum 2) # (''result'', JObj []) # detached_notification ''S1''))) ''sessionId''
     = Inr None \<and>
   map_get (callbacks pending_demo) (num 2) =
     Some \<lparr>cb_error = new_ProtocolError, cb_method = ''Foo.bar''\<rparr> \<and>
   s_callbacks (store pending_demo ! 0) =
     [(num 1, \<lparr>cb_error = new_ProtocolError, cb_method = ''Page.enable''\<rparr>)] \<and>
   s_callbacks (store (snd (onMessage pending_demo
     (Some (JObj ((''id'', jnum 2) # (''result'', JObj []) # detached_notification ''S1''))))) ! 0) = [] \<and>
   drop (length (trace pending_demo)) (trace (snd (onMessage pending_demo
     (Some (JObj ((''id'', jnum 2) # (''result'', JObj []) # detached_notification ''S1'')))))) =
     [Reject (Sess 0) (num 1)
        \<lparr>pe_message = ''Protocol error (Page.enable): Target closed.'', pe_originalMessage = None\<rparr>,
      Emit (Sess 0) CDPSessionDisconnected NoArg,
      Emit Conn (Named (str ''sessiondetached'')) (SessionRef 0),
      Resolve Conn (num 2) (Some (JObj []))] \<and>
   callbacks sent_demo = [(num 1, \<lparr>cb_error = new_ProtocolError, cb_method = ''Page.enable''\<rparr>)] \<and>
   onMessage sent_demo
     (Some (JObj [(''id'', jnum 1),
                  (''error'', JObj [(''message'', JStr ''boom''),
                                    (''data'', JObj [(''toString'', jnum 1)])])])) =
     (Threw TypeError, sent_demo\<lparr>callbacks := []\<rparr>)"
  by code_simp

section \<open>Sends on detached sessions\<close>

text \<open>
  Claim C4, as amended. On a detached session (no connection reference), \<open>send\<close> leaves,
  for every method name, the state as it was, so \<open>rawSend\<close> and the transport are not
  called, and the session's table and the id counter are unchanged. When the target type
  of the session can be converted to a string (as the string that the protocol gives as
  the type of a target can), \<open>send\<close> returns a promise rejected from the start, whose
  message contains the method name and says that the session is closed.
\<close>

theorem detached_session_send_rejects:
  assumes "a < length (store c)" and "s_connection (store c ! a) = None"
  shows "snd (session_send c a meth params) = c \<and>
         (\<forall>shown. to_string (s_targetType (store c ! a)) = Inr shown \<longrightarrow>
            (\<exists>msg. fst (session_send c a meth params) = Inr (Rejected (Error msg)) \<and>
                   sublist meth msg \<and> sublist ''Session closed'' msg))"
proof (intro conjI allI impI)
  show "snd (session_send c a meth params) = c"
    using assms(2) by (simp add: session_send_def split: sum.splits)
next
  fix shown assume t: "to_string (s_targetType (store c ! a)) = Inr shown"
  let ?msg = "''Protocol error ('' @ meth @ ''): Session closed. Most likely the ''
                @ shown @ '' has been closed.''"
  have "fst (session_send c a meth params) = Inr (Rejected (Error ?msg))"
    using assms(2) t by (simp add: session_send_def)
  moreover have "sublist meth ?msg" by (rule sublist_appendI)
  moreover have "sublist ''Session closed''
      ((''Protocol error ('' @ meth @ ''): '') @ ''Session closed'' @ (''. Most likely the ''
                @ shown @ '' has been closed.''))"
    by (rule sublist_appendI)
  hence "sublist ''Session closed'' ?msg" by simp
  ultimately show "\<exists>msg. fst (session_send c a meth params) = Inr (Rejected (Error msg)) \<and>
                   sublist meth msg \<and> sublist ''Session closed'' msg"
    by blast
qed

theorem detached_session_send_rejects_witness:
  "0 < length (store detached_demo) \<and> s_connection (store detached_demo ! 0) = None \<and>
   to_string (s_targetType (store detached_demo ! 0)) = Inr ''page'' \<and>
   session_send detached_demo 0 ''Page.enable'' None =
     (Inr (Rejected (Error
        ''Protocol error (Page.enable): Session closed. Most likely the page has been closed.'')),
      detached_demo)"
proof -
  have h1: "0 < length (store detached_demo)" by code_simp
  have h2: "s_connection (store detached_demo ! 0) = None" by code_simp
  have h3: "to_string (s_targetType (store detached_demo ! 0)) = Inr ''page''" by code_simp
  note T = detached_session_send_rejects[OF h1 h2, of "''Page.enable''" None]
  from T have s: "snd (session_send detached_demo 0 ''Page.enable'' None) = detached_demo"
    by blast
  from T h3 obtain msg where m: "fst (session_send detached_demo 0 ''Page.enable'' None) =
      Inr (Rejected (Error msg))"
    by blast
  have "fst (session_send detached_demo 0 ''Page.enable'' None) =
     Inr (Rejected (Error
        ''Protocol error (Page.enable): Session closed. Most likely the page has been closed.''))"
    by code_simp
  with s h1 h2 h3 show ?thesis by (simp add: prod_eq_iff)
qed

text \<open>
  The claim C4 as stated fails on a detached session whose target type cannot be converted
  to a string: the attach notification gave an object with a \<open>toString\<close> property as the
  type of the target. While it builds the message of the rejection, \<open>send\<close> throws a
  \<^verbatim>\<open>TypeError\<close>, and so returns no promise, rejected or other.
\<close>

theorem detached_session_send_counterexample:
  "0 < length (store untyped_demo) \<and> s_connection (store untyped_demo ! 0) = None \<and>
   s_targetType (store untyped_demo ! 0) = Some (JObj [(''toString'', jnum 1)]) \<and>
   session_send untyped_demo 0 ''Page.enable'' None = (Inl TypeError, untyped_demo)"
proof -
  have 1: "0 < length (store untyped_demo)" by code_simp
  have 2: "s_connection (store untyped_demo ! 0) = None" by code_simp
  have 3: "s_targetType (store untyped_demo ! 0) = Some (JObj [(''toString'', jnum 1)])"
    by code_simp
  have 4: "session_send untyped_demo 0 ''Page.enable'' None = (Inl TypeError, untyped_demo)"
    using 2 3 by (simp add: session_send_def)
  from 1 2 3 4 show ?thesis by simp
qed

section \<open>The session's router and the Connection's router\<close>

lemma store_update_session [simp]:
  "a < length (store c) \<Longrightarrow> store (update_session c a f) ! a = f (store c ! a)"
  by (simp add: update_session_def)



lemma get_prop_defined:
  "get_prop object k = Inr v \<Longrightarrow> \<exists>v'. get_prop object k' = Inr v'"
  by (cases "(object, k)" rule: get_prop.cases) simp_all




section \<open>Creating a session\<close>

lemma map_get_set_same: "\<not> by_reference k \<Longrightarrow> map_get (map_set m k v) k = Some v"
proof (induction m)
  case Nil thus ?case by (simp add: map_get_def map_set_def)
next
  case (Cons x m) thus ?case
    by (cases x) (auto simp: map_get_def map_set_def split: if_splits)
qed

text \<open>
  Claim C8. \<open>createSession\<close> sends the attach command under the next id. When it resumes
  with the result of that command, in the state reached by then, it returns the session
  registered in the session map under the result's session id, and fails with the creation
  error when no session is registered under it.
\<close>

theorem createSession_returns_registered_session:
  "fst (createSession_send c t) = Pending Conn (num (Suc (lastId c))) \<and>
   trace (snd (createSession_send c t)) =
     trace c @ [TransportSend \<lparr>out_sessionId = None, out_method = ''Target.attachToTarget'',
        out_params = Some (JObj [(''targetId'', JStr t), (''flatten'', JBool True)]),
        out_id = Suc (lastId c)\<rparr>] \<and>
   (\<forall>res sessionId. get_prop res ''sessionId'' = Inr sessionId \<longrightarrow>
      (\<forall>a. map_get (sessions c') sessionId = Some a \<longrightarrow>
           createSession_resume c' (Resolved res) = Inr a) \<and>
      (map_get (sessions c') sessionId = None \<longrightarrow>
           createSession_resume c' (Resolved res) =
             Inl (Thrown (Error ''CDPSession creation failed.''))))"
  by (simp add: createSession_send_def send_def rawSend_def Let_def do_effects_def
                createSession_resume_def)

theorem createSession_returns_registered_session_witness:
  "trace (run (new_Connection ''ws'') created_demo) =
     [TransportSend \<lparr>out_sessionId = None, out_method = ''Target.attachToTarget'',
        out_params = Some (JObj [(''targetId'', JStr ''T1''), (''flatten'', JBool True)]), out_id = 1\<rparr>,
      Emit Conn (Named (str ''sessionattached'')) (SessionRef 0),
      Emit Conn (Named (str ''Target.attachedToTarget''))
        (Value (Some (JObj [(''sessionId'', JStr ''S1''), (''targetInfo'', JObj [(''type'', JStr ''page'')])]))),
      Resolve Conn (num 1) (Some (JObj [(''sessionId'', JStr ''S1'')]))] \<and>
   createSession_resume (run (new_Connection ''ws'') created_demo)
     (Resolved (Some (JObj [(''sessionId'', JStr ''S1'')]))) = Inr 0 \<and>
   createSession_resume (run (new_Connection ''ws'') (butlast created_demo))
     (Resolved (Some (JObj [(''sessionId'', JStr ''S2'')]))) =
     Inl (Thrown (Error ''CDPSession creation failed.''))"
proof -
  have t: "trace (run (new_Connection ''ws'') created_demo) =
     [TransportSend \<lparr>out_sessionId = None, out_method = ''Target.attachToTarget'',
        out_params = Some (JObj [(''targetId'', JStr ''T1''), (''flatten'', JBool True)]), out_id = 1\<rparr>,
      Emit Conn (Named (str ''sessionattached'')) (SessionRef 0),
      Emit Conn (Named (str ''Target.attachedToTarget''))
        (Value (Some (JObj [(''sessionId'', JStr ''S1''), (''targetInfo'', JObj [(''type'', JStr ''page'')])]))),
      Resolve Conn (num 1) (Some (JObj [(''sessionId'', JStr ''S1'')]))]"
    by code_simp
  have g1: "get_prop (Some (JObj [(''sessionId'', JStr ''S1'')])) ''sessionId'' = Inr (str ''S1'')"
    by (simp add: str_def)
  have g2: "get_prop (Some (JObj [(''sessionId'', JStr ''S2'')])) ''sessionId'' = Inr (str ''S2'')"
    by (simp add: str_def)
  have s1: "map_get (sessions (run (new_Connection ''ws'') created_demo)) (str ''S1'') = Some 0"
    by code_simp
  have s2: "map_get (sessions (run (new_Connection ''ws'') (butlast created_demo))) (str ''S2'') = None"
    by code_simp
  from createSession_returns_registered_session[of "new_Connection ''ws''" "''T1''"
         "run (new_Connection ''ws'') created_demo"] g1 s1
  have a: "createSession_resume (run (new_Connection ''ws'') created_demo)
     (Resolved (Some (JObj [(''sessionId'', JStr ''S1'')]))) = Inr 0" by blast
  from createSession_returns_registered_session[of "new_Connection ''ws''" "''T1''"
         "run (new_Connection ''ws'') (butlast created_demo)"] g2 s2
  have b: "createSession_resume (run (new_Connection ''ws'') (butlast created_demo))
     (Resolved (Some (JObj [(''sessionId'', JStr ''S2'')]))) =
     Inl (Thrown (Error ''CDPSession creation failed.''))" by blast
  from t a b show ?thesis by blast
qed

section \<open>Closure of the Connection\<close>

lemma session_onClosed_eq:
  "session_onClosed c a =
     c\<lparr>store := (store c)[a := closed_session (store c ! a)],
       trace := trace c @ closing_effects (store c ! a) a\<rparr>"
  by (simp add: session_onClosed_def closing_effects_def closed_session_def Let_def
                do_effects_def emit_def update_session_def)

lemma fold_onClosed_fields:
  "sessions (fold (\<lambda>a c. session_onClosed c a) as c) = sessions c \<and>
   callbacks (fold (\<lambda>a c. session_onClosed c a) as c) = callbacks c \<and>
   closed (fold (\<lambda>a c. session_onClosed c a) as c) = closed c \<and>
   hooked (fold (\<lambda>a c. session_onClosed c a) as c) = hooked c \<and>
   lastId (fold (\<lambda>a c. session_onClosed c a) as c) = lastId c \<and>
   url (fold (\<lambda>a c. session_onClosed c a) as c) = url c \<and>
   length (store (fold (\<lambda>a c. session_onClosed c a) as c)) = length (store c)"
  by (induction as arbitrary: c) (simp_all add: session_onClosed_eq)

lemma fold_onClosed_store:
  "distinct as \<Longrightarrow> list_all (\<lambda>a. a < length (store c)) as \<Longrightarrow>
   store (fold (\<lambda>a c. session_onClosed c a) as c) ! b =
     (if b \<in> set as then closed_session (store c ! b) else store c ! b)"
proof (induction as arbitrary: c)
  case Nil show ?case by simp
next
  case (Cons a as)
  let ?c1 = "session_onClosed c a"
  from Cons.prems have a: "a < length (store c)" "a \<notin> set as" "distinct as" by simp_all
  from Cons.prems have "list_all (\<lambda>a. a < length (store ?c1)) as"
    by (simp add: session_onClosed_eq)
  from Cons.IH[OF a(3) this]
  have "store (fold (\<lambda>a c. session_onClosed c a) as ?c1) ! b =
     (if b \<in> set as then closed_session (store ?c1 ! b) else store ?c1 ! b)" .
  moreover have "store ?c1 ! b = (if b = a then closed_session (store c ! a) else store c ! b)"
    using a(1) by (simp add: session_onClosed_eq nth_list_update)
  ultimately show ?case using a(2) by auto
qed

lemma fold_onClosed_trace:
  "distinct as \<Longrightarrow>
   trace (fold (\<lambda>a c. session_onClosed c a) as c) =
     trace c @ concat (map (\<lambda>a. closing_effects (store c ! a) a) as)"
proof (induction as arbitrary: c)
  case Nil show ?case by simp
next
  case (Cons a as)
  let ?c1 = "session_onClosed c a"
  from Cons.prems have a: "a \<notin> set as" "distinct as" by simp_all
  have "map (\<lambda>b. closing_effects (store ?c1 ! b) b) as = map (\<lambda>b. closing_effects (store c ! b) b) as"
  proof (rule map_cong[OF refl])
    fix b assume "b \<in> set as"
    with a(1) have "b \<noteq> a" by blast
    thus "closing_effects (store ?c1 ! b) b = closing_effects (store c ! b) b"
      by (simp add: session_onClosed_eq)
  qed
  hence eq: "concat (map (\<lambda>b. closing_effects (store ?c1 ! b) b) as) =
             concat (map (\<lambda>b. closing_effects (store c ! b) b) as)"
    by (rule arg_cong)
  have "trace (fold (\<lambda>a c. session_onClosed c a) (a # as) c) =
        trace ?c1 @ concat (map (\<lambda>b. closing_effects (store ?c1 ! b) b) as)"
    using Cons.IH[OF a(2), of ?c1] by simp
  also have "\<dots> = trace ?c1 @ concat (map (\<lambda>b. closing_effects (store c ! b) b) as)"
    by (simp only: eq)
  also have "trace ?c1 = trace c @ closing_effects (store c ! a) a"
    by (simp add: session_onClosed_eq)
  finally show ?case by simp
qed

lemma target_closed_text:
  "sublist (cb_method cb) (pe_message (target_closed cb))"
  "sublist ''Target closed'' (pe_message (target_closed cb))"
proof -
  have "sublist (cb_method cb) (''Protocol error ('' @ cb_method cb @ ''): Target closed.'')"
    by (rule sublist_appendI)
  thus "sublist (cb_method cb) (pe_message (target_closed cb))"
    by (simp add: target_closed_def rewriteError_def)
  have "sublist ''Target closed'' ((''Protocol error ('' @ cb_method cb @ ''): '') @ ''Target closed'' @ ''.'')"
    by (rule sublist_appendI)
  thus "sublist ''Target closed'' (pe_message (target_closed cb))"
    by (simp add: target_closed_def rewriteError_def)
qed

lemma onClose_closed: "closed c \<Longrightarrow> onClose c = c"
  by (simp add: onClose_def)

lemma onClose_fields:
  assumes "\<not> closed c"
  shows "closed (onClose c)" "\<not> hooked (onClose c)" "callbacks (onClose c) = []"
    "sessions (onClose c) = []" "lastId (onClose c) = lastId c"
    "length (store (onClose c)) = length (store c)"
  using assms by (simp_all add: onClose_def Let_def emit_def do_effects_def fold_onClosed_fields)

lemma onClose_store:
  assumes "\<not> closed c" and "well_formed c"
  shows "store (onClose c) ! b =
     (if b \<in> set (live c) then closed_session (store c ! b) else store c ! b)"
proof -
  let ?c3 = "c\<lparr>closed := True, hooked := False,
               trace := trace c @ map (\<lambda>(k, cb). Reject Conn k (target_closed cb)) (callbacks c),
               callbacks := []\<rparr>"
  have "store (onClose c) = store (fold (\<lambda>a c. session_onClosed c a) (live c) ?c3)"
    using assms(1) by (simp add: onClose_def Let_def emit_def do_effects_def live_def)
  moreover have "distinct (live c)" "list_all (\<lambda>a. a < length (store ?c3)) (live c)"
    using assms(2) by (simp_all add: well_formed_def)
  ultimately show ?thesis using fold_onClosed_store[of "live c" ?c3 b] by simp
qed

lemma onClose_trace:
  assumes "\<not> closed c" and "well_formed c"
  shows "trace (onClose c) =
     trace c @ map (\<lambda>(k, cb). Reject Conn k (target_closed cb)) (callbacks c) @
     concat (map (\<lambda>a. closing_effects (store c ! a) a) (live c)) @
     [Emit Conn ConnectionDisconnected NoArg]"
proof -
  let ?c3 = "c\<lparr>closed := True, hooked := False,
               trace := trace c @ map (\<lambda>(k, cb). Reject Conn k (target_closed cb)) (callbacks c),
               callbacks := []\<rparr>"
  have "trace (onClose c) = trace (fold (\<lambda>a c. session_onClosed c a) (live c) ?c3) @
          [Emit Conn ConnectionDisconnected NoArg]"
    using assms(1) by (simp add: onClose_def Let_def emit_def do_effects_def live_def)
  moreover have "distinct (live c)" using assms(2) by (simp add: well_formed_def)
  ultimately show ?thesis using fold_onClosed_trace[of "live c" ?c3] by simp
qed

lemma onClose_well_formed:
  assumes "\<not> closed c" and "well_formed c"
  shows "closed (onClose c) \<and> \<not> hooked (onClose c) \<and>
         callbacks (onClose c) = [] \<and> sessions (onClose c) = [] \<and>
         trace (onClose c) =
           trace c @ map (\<lambda>(k, cb). Reject Conn k (target_closed cb)) (callbacks c) @
           concat (map (\<lambda>a. closing_effects (store c ! a) a) (live c)) @
           [Emit Conn ConnectionDisconnected NoArg] \<and>
         list_all (\<lambda>a. s_callbacks (store (onClose c) ! a) = [] \<and>
                       s_connection (store (onClose c) ! a) = None) (live c) \<and>
         (\<forall>cb. sublist (cb_method cb) (pe_message (target_closed cb)) \<and>
               sublist ''Target closed'' (pe_message (target_closed cb))) \<and>
         onClose (onClose c) = onClose c"
proof -
  have "list_all (\<lambda>a. s_callbacks (store (onClose c) ! a) = [] \<and>
                       s_connection (store (onClose c) ! a) = None) (live c)"
    using onClose_store[OF assms] by (simp add: list_all_iff closed_session_def)
  moreover have "\<forall>cb. sublist (cb_method cb) (pe_message (target_closed cb)) \<and>
               sublist ''Target closed'' (pe_message (target_closed cb))"
    using target_closed_text by simp
  moreover have "onClose (onClose c) = onClose c"
    using onClose_fields(1)[OF assms(1)] by (rule onClose_closed)
  ultimately show ?thesis
    using onClose_fields[OF assms(1)] onClose_trace[OF assms] by simp
qed

section \<open>Well-formed states\<close>

lemma set_values_map_delete: "set (map_values (map_delete m k)) \<subseteq> set (map_values m)"
  by (auto simp: map_values_def map_delete_def)

lemma distinct_values_map_delete:
  "distinct (map_values m) \<Longrightarrow> distinct (map_values (map_delete m k))"
  by (simp add: map_values_def map_delete_def distinct_map_filter)

lemma keys_map_delete:
  "distinct (filter P (map fst m)) \<Longrightarrow> distinct (filter P (map fst (map_delete m k)))"
proof -
  assume d: "distinct (filter P (map fst m))"
  have "map fst (filter (\<lambda>(k', v'). k' \<noteq> k) m) = filter (\<lambda>k'. k' \<noteq> k) (map fst m)"
    by (induction m) auto
  hence "filter P (map fst (filter (\<lambda>(k', v'). k' \<noteq> k) m)) =
         filter (\<lambda>k'. k' \<noteq> k) (filter P (map fst m))"
    by (simp add: conj_commute)
  moreover have "distinct (filter (\<lambda>k'. k' \<noteq> k) (filter P (map fst m)))"
    using d by (rule distinct_filter)
  ultimately have "distinct (filter P (map fst (filter (\<lambda>(k', v'). k' \<noteq> k) m)))"
    by (simp only:)
  with d show ?thesis by (simp add: map_delete_def)
qed

lemma set_values_update:
  "set (map snd (map (\<lambda>(k', v'). if k' = k then (k', v) else (k', v')) m))
     \<subseteq> insert v (set (map snd m))"
  by (induction m) auto

lemma set_values_map_set: "set (map_values (map_set m k v)) \<subseteq> insert v (set (map_values m))"
proof (cases "map_get m k = None")
  case True thus ?thesis by (auto simp: map_values_def map_set_def)
next
  case False
  hence "map_set m k v = map (\<lambda>(k', v'). if k' = k then (k', v) else (k', v')) m"
    by (simp only: map_set_def if_False)
  thus ?thesis using set_values_update[of k v m] by (simp only: map_values_def)
qed

lemma keys_map_set:
  assumes "distinct (filter (\<lambda>k. \<not> by_reference k) (map fst m))"
  shows "distinct (filter (\<lambda>k. \<not> by_reference k) (map fst (map_set m k v)))"
proof (cases "map_get m k = None")
  case True
  hence "by_reference k \<or> k \<notin> set (map fst m)"
    by (auto simp: map_get_def map_of_eq_None_iff split: if_splits)
  with assms True show ?thesis by (auto simp: map_set_def)
next
  case False
  have "map fst (map (\<lambda>(k', v'). if k' = k then (k', v) else (k', v')) m) = map fst m"
    by (induction m) auto
  hence "map fst (map_set m k v) = map fst m"
    using False by (simp only: map_set_def if_False)
  with assms show ?thesis by simp
qed

lemma update_unique_key:
  "k \<notin> set (map fst m) \<Longrightarrow> map (\<lambda>(k', v'). if k' = k then (k', v) else (k', v')) m = m"
  by (induction m) auto

lemma distinct_values_map_set:
  assumes "distinct (map_values m)" and "v \<notin> set (map_values m)"
    and "distinct (filter (\<lambda>k. \<not> by_reference k) (map fst m))"
  shows "distinct (map_values (map_set m k v))"
proof (cases "map_get m k = None")
  case True
  with assms show ?thesis by (simp add: map_set_def map_values_def)
next
  case False
  hence nr: "\<not> by_reference k" by (auto simp: map_get_def split: if_splits)
  have "distinct (map snd m) \<Longrightarrow> v \<notin> set (map snd m) \<Longrightarrow>
        distinct (filter (\<lambda>k. \<not> by_reference k) (map fst m)) \<Longrightarrow>
        distinct (map snd (map (\<lambda>(k', v'). if k' = k then (k', v) else (k', v')) m))"
  proof (induction m)
    case Nil show ?case by simp
  next
    case (Cons x m)
    obtain k' v' where x: "x = (k', v')" by (cases x)
    show ?case
    proof (cases "k' = k")
      case True
      with Cons.prems(3) x nr have "k \<notin> set (map fst m)" by auto
      hence "map (\<lambda>(k', v'). if k' = k then (k', v) else (k', v')) m = m"
        by (rule update_unique_key)
      with True x Cons.prems show ?thesis by simp
    next
      case False
      have "set (map snd (map (\<lambda>(k', v'). if k' = k then (k', v) else (k', v')) m))
             \<subseteq> insert v (set (map snd m))" by (rule set_values_update)
      moreover have "v' \<noteq> v" "v' \<notin> set (map snd m)" using Cons.prems x by auto
      ultimately have "v' \<notin> set (map snd (map (\<lambda>(k', v'). if k' = k then (k', v) else (k', v')) m))"
        by blast
      moreover have "distinct (map snd (map (\<lambda>(k', v'). if k' = k then (k', v) else (k', v')) m))"
        using Cons.IH Cons.prems x by (auto split: if_splits)
      ultimately show ?thesis using False x by simp
    qed
  qed
  with assms False show ?thesis by (simp add: map_set_def map_values_def)
qed

section \<open>What the operations leave unchanged\<close>

lemma nth_update_session:
  "store (update_session c a f) ! b =
     (if b = a \<and> a < length (store c) then f (store c ! a) else store c ! b)"
proof (cases "a < length (store c)")
  case True thus ?thesis by (simp add: update_session_def nth_list_update)
next
  case False thus ?thesis by (simp add: update_session_def list_update_beyond)
qed

lemma update_session_fields [simp]:
  "sessions (update_session c a f) = sessions c"
  "callbacks (update_session c a f) = callbacks c"
  "closed (update_session c a f) = closed c"
  "hooked (update_session c a f) = hooked c"
  "lastId (update_session c a f) = lastId c"
  "trace (update_session c a f) = trace c"
  "length (store (update_session c a f)) = length (store c)"
  by (simp_all add: update_session_def)

lemma do_effects_fields [simp]:
  "sessions (do_effects c es) = sessions c"
  "callbacks (do_effects c es) = callbacks c"
  "closed (do_effects c es) = closed c"
  "hooked (do_effects c es) = hooked c"
  "lastId (do_effects c es) = lastId c"
  "store (do_effects c es) = store c"
  "trace (do_effects c es) = trace c @ es"
  by (simp_all add: do_effects_def)

lemma emit_fields [simp]:
  "sessions (emit c w ev x) = sessions c"
  "callbacks (emit c w ev x) = callbacks c"
  "closed (emit c w ev x) = closed c"
  "hooked (emit c w ev x) = hooked c"
  "lastId (emit c w ev x) = lastId c"
  "store (emit c w ev x) = store c"
  "trace (emit c w ev x) = trace c @ [Emit w ev x]"
  by (simp_all add: emit_def)

lemma live_fields [simp]:
  "live (update_session c a f) = live c"
  "live (do_effects c es) = live c"
  "live (emit c w ev x) = live c"
  "live (c\<lparr>callbacks := cbs\<rparr>) = live c"
  "live (c\<lparr>trace := t\<rparr>) = live c"
  "live (c\<lparr>store := st\<rparr>) = live c"
  "live (c\<lparr>lastId := n\<rparr>) = live c"
  by (simp_all add: live_def)

lemma settlements_fields [simp]:
  "settlements w (update_session c a f) = settlements w c"
  "settlements w (do_effects c es) = settlements w c @ filter (settles w) es"
  "settlements w (emit c w' ev x) = settlements w c"
  "settlements w (c\<lparr>callbacks := cbs\<rparr>) = settlements w c"
  "settlements w (c\<lparr>sessions := m\<rparr>) = settlements w c"
  "settlements w (c\<lparr>store := st\<rparr>) = settlements w c"
  "settlements w (c\<lparr>lastId := n\<rparr>) = settlements w c"
  "settlements w (c\<lparr>closed := b\<rparr>) = settlements w c"
  "settlements w (c\<lparr>hooked := b\<rparr>) = settlements w c"
  by (simp_all add: settlements_def)

lemma map_get_in_values: "map_get m k = Some a \<Longrightarrow> a \<in> set (map_values m)"
  by (auto simp: map_get_def map_values_def split: if_splits dest!: map_of_SomeD intro: rev_image_eqI)

lemma map_get_live: "map_get (sessions c) k = Some a \<Longrightarrow> a \<in> set (live c)"
  by (simp add: live_def map_get_in_values)

subsection \<open>The session's router\<close>

lemma session_event_frame:
  "sessions (snd (session_event c a oid obj)) = sessions c"
  "callbacks (snd (session_event c a oid obj)) = callbacks c"
  "store (snd (session_event c a oid obj)) = store c"
  "settlements w (snd (session_event c a oid obj)) = settlements w c"
  "\<exists>es. trace (snd (session_event c a oid obj)) = trace c @ es"
  by (auto simp: session_event_def session_emit_def attempt_def split: option.splits sum.splits)

lemma map_delete_Nil [simp]: "map_delete [] k = []"
  by (simp add: map_delete_def)

lemma session_onMessage_frame:
  "sessions (snd (session_onMessage c a obj)) = sessions c"
  "callbacks (snd (session_onMessage c a obj)) = callbacks c"
  "length (store (snd (session_onMessage c a obj))) = length (store c)"
  "s_connection (store (snd (session_onMessage c a obj)) ! b) = s_connection (store c ! b)"
  "s_sessionId (store (snd (session_onMessage c a obj)) ! b) = s_sessionId (store c ! b)"
  "b \<noteq> a \<Longrightarrow> store (snd (session_onMessage c a obj)) ! b = store c ! b"
  "s_callbacks (store c ! b) = [] \<Longrightarrow> s_callbacks (store (snd (session_onMessage c a obj)) ! b) = []"
  "w \<noteq> Sess a \<Longrightarrow> settlements w (snd (session_onMessage c a obj)) = settlements w c"
  "\<exists>es. trace (snd (session_onMessage c a obj)) = trace c @ es"
  by (auto simp: session_onMessage_def attempt_def Let_def session_event_frame nth_update_session
           split: option.splits sum.splits)

subsection \<open>The Connection's router\<close>

lemma dispatch_connection_frame:
  assumes "get_prop obj ''sessionId'' = Inr sid" and "\<not> truthy sid"
  shows "sessions (snd (dispatch c obj)) = sessions c"
    and "store (snd (dispatch c obj)) = store c"
    and "settlements (Sess b) (snd (dispatch c obj)) = settlements (Sess b) c"
    and "\<exists>es. trace (snd (dispatch c obj)) = trace c @ es"
  using assms
  by (auto simp: dispatch_def attempt_def Let_def split: option.splits sum.splits)

lemma dispatch_cases:
  obtains (throws) e where "dispatch c obj = (Threw e, c)"
  | (nothing) "dispatch c obj = (Returned, c)"
  | (session) a where "a \<in> set (live c)" and "dispatch c obj = session_onMessage c a obj"
  | (connection) sid where "get_prop obj ''sessionId'' = Inr sid" and "\<not> truthy sid"
proof (cases "get_prop obj ''sessionId''")
  case (Inl e)
  hence "dispatch c obj = (Threw e, c)" by (simp add: dispatch_def attempt_def)
  thus ?thesis by (rule throws)
next
  case (Inr sid)
  show ?thesis
  proof (cases "truthy sid")
    case False with Inr show ?thesis by (rule connection)
  next
    case True
    show ?thesis
    proof (cases "map_get (sessions c) sid")
      case None
      with Inr True have "dispatch c obj = (Returned, c)" by (simp add: dispatch_def attempt_def)
      thus ?thesis by (rule nothing)
    next
      case (Some a)
      with Inr True have "dispatch c obj = session_onMessage c a obj"
        by (simp add: dispatch_def attempt_def)
      with map_get_live[OF Some] show ?thesis by (rule session)
    qed
  qed
qed

lemma dispatch_frame:
  "sessions (snd (dispatch c obj)) = sessions c"
  "length (store (snd (dispatch c obj))) = length (store c)"
  "s_connection (store (snd (dispatch c obj)) ! b) = s_connection (store c ! b)"
  "s_sessionId (store (snd (dispatch c obj)) ! b) = s_sessionId (store c ! b)"
  "s_callbacks (store c ! b) = [] \<Longrightarrow> s_callbacks (store (snd (dispatch c obj)) ! b) = []"
  "\<exists>es. trace (snd (dispatch c obj)) = trace c @ es"
  by (rule dispatch_cases[of c obj];
      simp add: session_onMessage_frame dispatch_connection_frame)+

lemma dispatch_frame_not_live:
  assumes "b \<notin> set (live c)"
  shows "store (snd (dispatch c obj)) ! b = store c ! b"
    and "settlements (Sess b) (snd (dispatch c obj)) = settlements (Sess b) c"
proof -
  have "store (snd (dispatch c obj)) ! b = store c ! b \<and>
        settlements (Sess b) (snd (dispatch c obj)) = settlements (Sess b) c"
  proof (rule dispatch_cases[of c obj])
    fix a assume a: "a \<in> set (live c)" "dispatch c obj = session_onMessage c a obj"
    with assms have "b \<noteq> a" by blast
    with a show ?thesis by (simp add: session_onMessage_frame)
  qed (simp_all add: dispatch_connection_frame)
  thus "store (snd (dispatch c obj)) ! b = store c ! b"
    and "settlements (Sess b) (snd (dispatch c obj)) = settlements (Sess b) c" by simp_all
qed

lemma attachedToTarget_eq:
  assumes "get_prop object ''params'' = Inr params"
    and "get_prop params ''sessionId'' = Inr sessionId"
    and "get_prop params ''targetInfo'' = Inr targetInfo"
    and "get_prop targetInfo ''type'' = Inr targetType"
    and "get_prop object ''sessionId'' = Inr outer"
  shows "attachedToTarget c object =
     Inr (let a = length (store c);
              c3 = c\<lparr>store := store c @ [\<lparr>s_sessionId = sessionId, s_targetType = targetType,
                                          s_callbacks = [], s_connection = Some ThisConnection\<rparr>],
                     sessions := map_set (sessions c) sessionId a,
                     trace := trace c @ [Emit Conn (Named (str ''sessionattached'')) (SessionRef a)]\<rparr>
          in case map_get (map_set (sessions c) sessionId a) outer of
               None \<Rightarrow> c3
             | Some p \<Rightarrow> c3\<lparr>trace := trace c3 @
                               [Emit (Sess p) (Named (str ''sessionattached'')) (SessionRef a)]\<rparr>)"
  using assms
  by (simp add: attachedToTarget_def bind_js_def Let_def emit_def do_effects_def
           split: option.splits)

lemma attachedToTarget_frame:
  assumes "attachedToTarget c obj = Inr c'"
  shows "\<exists>k. sessions c' = map_set (sessions c) k (length (store c))"
    and "length (store c') = Suc (length (store c))"
    and "b < length (store c) \<Longrightarrow> store c' ! b = store c ! b"
    and "settlements w c' = settlements w c"
    and "callbacks c' = callbacks c"
    and "\<exists>es. trace c' = trace c @ es"
  using assms
  by (auto simp: attachedToTarget_def bind_js_def Let_def nth_append
           split: option.splits sum.splits)

lemma session_onClosed_frame:
  "sessions (session_onClosed c a) = sessions c"
  "callbacks (session_onClosed c a) = callbacks c"
  "length (store (session_onClosed c a)) = length (store c)"
  "b \<noteq> a \<Longrightarrow> store (session_onClosed c a) ! b = store c ! b"
  "b \<noteq> a \<Longrightarrow> settlements (Sess b) (session_onClosed c a) = settlements (Sess b) c"
  "\<exists>es. trace (session_onClosed c a) = trace c @ es"
  by (auto simp: session_onClosed_eq settlements_def closing_effects_def split_def)

lemma detachedFromTarget_cases:
  assumes "detachedFromTarget c obj = Inr c'"
  obtains (absent) "c' = c"
  | (present) k a es where "map_get (sessions c) k = Some a"
      and "c' = do_effects ((session_onClosed c a)\<lparr>sessions := map_delete (sessions c) k\<rparr>) es"
      and "list_all (\<lambda>e. \<forall>w. \<not> settles w e) es"
proof -
  from assms obtain params where p: "get_prop obj ''params'' = Inr params"
    by (cases "get_prop obj ''params''") (simp_all add: detachedFromTarget_def bind_js_def)
  then obtain outer where o: "get_prop obj ''sessionId'' = Inr outer"
    using get_prop_defined by blast
  from assms p obtain k where k: "get_prop params ''sessionId'' = Inr k"
    by (cases "get_prop params ''sessionId''") (simp_all add: detachedFromTarget_def bind_js_def)
  show thesis
  proof (cases "map_get (sessions c) k")
    case None
    with assms p k have "c' = c" by (simp add: detachedFromTarget_def bind_js_def)
    thus thesis by (rule absent)
  next
    case (Some a)
    let ?es = "Emit Conn (Named (str ''sessiondetached'')) (SessionRef a) #
       (case map_get (map_delete (sessions c) k) outer of None \<Rightarrow> []
        | Some p \<Rightarrow> [Emit (Sess p) (Named (str ''sessiondetached'')) (SessionRef a)])"
    from assms p k o Some
    have "c' = do_effects ((session_onClosed c a)\<lparr>sessions := map_delete (sessions c) k\<rparr>) ?es"
      by (simp add: detachedFromTarget_def bind_js_def Let_def emit_def do_effects_def
                    session_onClosed_frame split: option.splits)
    moreover have "list_all (\<lambda>e. \<forall>w. \<not> settles w e) ?es"
      by (simp split: option.splits)
    ultimately show thesis using Some by (rule present[rotated])
  qed
qed

lemma detachedFromTarget_frame:
  assumes "detachedFromTarget c obj = Inr c'"
  shows "sessions c' = sessions c \<or> (\<exists>k. sessions c' = map_delete (sessions c) k)"
    and "length (store c') = length (store c)"
    and "callbacks c' = callbacks c"
    and "\<exists>es. trace c' = trace c @ es"
  by (rule detachedFromTarget_cases[OF assms]; auto simp: session_onClosed_frame session_onClosed_eq)+

lemma filter_none: "list_all (\<lambda>e. \<forall>w. \<not> settles w e) es \<Longrightarrow> filter (settles w) es = []"
  by (induction es) auto

lemma detachedFromTarget_frame_not_live:
  assumes "detachedFromTarget c obj = Inr c'" and "b \<notin> set (live c)"
  shows "store c' ! b = store c ! b"
    and "settlements (Sess b) c' = settlements (Sess b) c"
proof -
  have "store c' ! b = store c ! b \<and> settlements (Sess b) c' = settlements (Sess b) c"
  proof (rule detachedFromTarget_cases[OF assms(1)])
    assume "c' = c" thus ?thesis by simp
  next
    fix k a es
    assume a: "map_get (sessions c) k = Some a"
      and c': "c' = do_effects ((session_onClosed c a)\<lparr>sessions := map_delete (sessions c) k\<rparr>) es"
      and es: "list_all (\<lambda>e. \<forall>w. \<not> settles w e) es"
    from a assms(2) have "b \<noteq> a" using map_get_live by blast
    with c' es show ?thesis
      by (simp add: session_onClosed_frame filter_none)
  qed
  thus "store c' ! b = store c ! b" and "settlements (Sess b) c' = settlements (Sess b) c"
    by simp_all
qed

lemma structural_cases:
  assumes "structural c obj = Inr c1"
  obtains (attach) "attachedToTarget c obj = Inr c1"
  | (detach) "detachedFromTarget c obj = Inr c1"
  | (other) "c1 = c"
proof -
  from assms obtain m where m: "get_prop obj ''method'' = Inr m"
    by (cases "get_prop obj ''method''") (simp_all add: structural_def bind_js_def)
  show thesis
  proof (cases "m = str ''Target.attachedToTarget''")
    case True
    with assms m have "attachedToTarget c obj = Inr c1" by (simp add: structural_def bind_js_def)
    thus thesis by (rule attach)
  next
    case False
    show thesis
    proof (cases "m = str ''Target.detachedFromTarget''")
      case True
      with assms m False have "detachedFromTarget c obj = Inr c1"
        by (simp add: structural_def bind_js_def)
      thus thesis by (rule detach)
    next
      case no: False
      with assms m False have "c1 = c" by (simp add: structural_def bind_js_def)
      thus thesis by (rule other)
    qed
  qed
qed

lemma onMessage_cases:
  obtains (throws) "snd (onMessage c obj) = c"
  | (routed) c1 where "structural c obj = Inr c1" and "onMessage c obj = dispatch c1 obj"
  by (cases "structural c obj") (auto simp: onMessage_def)

lemma well_formed_shape:
  "sessions c' = sessions c \<Longrightarrow> length (store c') = length (store c) \<Longrightarrow>
   well_formed c' = well_formed c"
  by (simp add: well_formed_def live_def)

lemma well_formed_attached:
  assumes "well_formed c" and "attachedToTarget c obj = Inr c'"
  shows "well_formed c'"
proof -
  from attachedToTarget_frame(1,2)[OF assms(2)] obtain k
    where s: "sessions c' = map_set (sessions c) k (length (store c))"
      and l: "length (store c') = Suc (length (store c))" by blast
  from assms(1) have d: "distinct (map_values (sessions c))"
    and b: "\<forall>a\<in>set (map_values (sessions c)). a < length (store c)"
    and ks: "distinct (filter (\<lambda>k. \<not> by_reference k) (map fst (sessions c)))"
    by (simp_all add: well_formed_def live_def list_all_iff)
  from b have fresh: "length (store c) \<notin> set (map_values (sessions c))" by blast
  have "distinct (live c')"
    using distinct_values_map_set[OF d fresh ks] s by (simp add: live_def)
  moreover have "\<forall>a\<in>set (live c'). a < length (store c')"
  proof
    fix a assume "a \<in> set (live c')"
    with s have "a \<in> insert (length (store c)) (set (map_values (sessions c)))"
      using set_values_map_set[of "sessions c" k "length (store c)"] by (auto simp: live_def)
    with b l show "a < length (store c')" by (auto simp: less_Suc_eq)
  qed
  moreover have "distinct (filter (\<lambda>k. \<not> by_reference k) (map fst (sessions c')))"
    using keys_map_set[OF ks] s by simp
  ultimately show ?thesis by (simp add: well_formed_def list_all_iff)
qed

lemma well_formed_map_delete:
  assumes "well_formed c" and "sessions c' = map_delete (sessions c) k"
    and "length (store c') = length (store c)"
  shows "well_formed c'"
proof -
  from assms(1) have d: "distinct (map_values (sessions c))"
    and b: "\<forall>a\<in>set (map_values (sessions c)). a < length (store c)"
    and ks: "distinct (filter (\<lambda>k. \<not> by_reference k) (map fst (sessions c)))"
    by (simp_all add: well_formed_def live_def list_all_iff)
  have "distinct (live c')"
    using distinct_values_map_delete[OF d] assms(2) by (simp add: live_def)
  moreover have "\<forall>a\<in>set (live c'). a < length (store c')"
    using set_values_map_delete[of "sessions c" k] b assms(2,3) by (auto simp: live_def)
  moreover have "distinct (filter (\<lambda>k. \<not> by_reference k) (map fst (sessions c')))"
    using keys_map_delete[OF ks] assms(2) by simp
  ultimately show ?thesis by (simp add: well_formed_def list_all_iff)
qed

lemma well_formed_detached:
  assumes "well_formed c" and "detachedFromTarget c obj = Inr c'"
  shows "well_formed c'"
proof -
  note l = detachedFromTarget_frame(2)[OF assms(2)]
  from detachedFromTarget_frame(1)[OF assms(2)] show ?thesis
  proof
    assume "sessions c' = sessions c"
    with l assms(1) show ?thesis by (simp add: well_formed_shape[of c' c])
  next
    assume "\<exists>k. sessions c' = map_delete (sessions c) k"
    then obtain k where "sessions c' = map_delete (sessions c) k" ..
    with assms(1) show ?thesis using l by (rule well_formed_map_delete)
  qed
qed

lemma well_formed_structural:
  assumes "well_formed c" and "structural c obj = Inr c'"
  shows "well_formed c'"
proof (rule structural_cases[OF assms(2)])
  assume "attachedToTarget c obj = Inr c'"
  with assms(1) show ?thesis by (rule well_formed_attached)
next
  assume "detachedFromTarget c obj = Inr c'"
  with assms(1) show ?thesis by (rule well_formed_detached)
next
  assume "c' = c"
  with assms(1) show ?thesis by simp
qed

lemma well_formed_onMessage:
  assumes "well_formed c"
  shows "well_formed (snd (onMessage c obj))"
proof (rule onMessage_cases[of c obj])
  assume "snd (onMessage c obj) = c"
  with assms show ?thesis by simp
next
  fix c1 assume s: "structural c obj = Inr c1" and o: "onMessage c obj = dispatch c1 obj"
  from well_formed_structural[OF assms s] have "well_formed c1" .
  moreover have "well_formed (snd (dispatch c1 obj)) = well_formed c1"
    by (rule well_formed_shape) (rule dispatch_frame)+
  ultimately show ?thesis using o by simp
qed

lemma well_formed_onClose:
  assumes "well_formed c"
  shows "well_formed (onClose c)"
proof (cases "closed c")
  case True with assms show ?thesis by (simp add: onClose_closed)
next
  case False
  from onClose_fields(4)[OF False] show ?thesis
    by (simp add: well_formed_def live_def map_values_def)
qed

lemma rawSend_frame:
  "sessions (snd (rawSend c sid m p)) = sessions c"
  "callbacks (snd (rawSend c sid m p)) = callbacks c"
  "store (snd (rawSend c sid m p)) = store c"
  "closed (snd (rawSend c sid m p)) = closed c"
  "hooked (snd (rawSend c sid m p)) = hooked c"
  "settlements w (snd (rawSend c sid m p)) = settlements w c"
  "\<exists>es. trace (snd (rawSend c sid m p)) = trace c @ es"
  by (simp_all add: rawSend_def Let_def)

lemma send_frame:
  "sessions (snd (send c m p)) = sessions c"
  "store (snd (send c m p)) = store c"
  "closed (snd (send c m p)) = closed c"
  "hooked (snd (send c m p)) = hooked c"
  "settlements w (snd (send c m p)) = settlements w c"
  "\<exists>es. trace (snd (send c m p)) = trace c @ es"
  by (simp_all add: send_def split_def Let_def rawSend_frame)

lemma map_get_set_mono: "map_get m k \<noteq> None \<Longrightarrow> map_get (map_set m k' v) k \<noteq> None"
proof (cases "map_get m k' = None")
  case True
  assume "map_get m k \<noteq> None"
  with True show ?thesis by (auto simp: map_set_def map_get_def split: if_splits)
next
  case False
  assume k: "map_get m k \<noteq> None"
  have "map_of (map (\<lambda>(k'', v'). if k'' = k' then (k'', v) else (k'', v')) m) k \<noteq> None"
    if "map_of m k \<noteq> None" using that by (induction m) (auto split: if_splits)
  with False k show ?thesis by (auto simp: map_set_def map_get_def split: if_splits)
qed

lemma map_get_set_mono': "map_get m k = Some y \<Longrightarrow> \<exists>z. map_get (map_set m k' v) k = Some z"
  using map_get_set_mono[of m k k' v] by auto

lemma session_send_frame:
  "sessions (snd (session_send c a m p)) = sessions c"
  "length (store (snd (session_send c a m p))) = length (store c)"
  "closed (snd (session_send c a m p)) = closed c"
  "hooked (snd (session_send c a m p)) = hooked c"
  "b \<noteq> a \<Longrightarrow> store (snd (session_send c a m p)) ! b = store c ! b"
  "s_connection (store (snd (session_send c a m p)) ! b) = s_connection (store c ! b)"
  "map_get (s_callbacks (store c ! b)) k \<noteq> None \<Longrightarrow>
     map_get (s_callbacks (store (snd (session_send c a m p)) ! b)) k \<noteq> None"
  "settlements w (snd (session_send c a m p)) = settlements w c"
  "\<exists>es. trace (snd (session_send c a m p)) = trace c @ es"
  by (auto simp: session_send_def Let_def split_def nth_update_session
                 rawSend_frame split: option.splits sum.splits intro: map_get_set_mono')

lemma session_detach_frame:
  "sessions (snd (session_detach c a)) = sessions c"
  "store (snd (session_detach c a)) = store c"
  "closed (snd (session_detach c a)) = closed c"
  "hooked (snd (session_detach c a)) = hooked c"
  "settlements w (snd (session_detach c a)) = settlements w c"
  "\<exists>es. trace (snd (session_detach c a)) = trace c @ es"
  by (auto simp: session_detach_def Let_def send_frame split: option.splits sum.splits)

lemma session_send_detached:
  "s_connection (store c ! a) = None \<Longrightarrow> snd (session_send c a m p) = c"
  by (simp add: session_send_def split: sum.splits)

lemma fold_onClosed_not_live:
  "b \<notin> set as \<Longrightarrow>
   store (fold (\<lambda>a c. session_onClosed c a) as c) ! b = store c ! b \<and>
   settlements (Sess b) (fold (\<lambda>a c. session_onClosed c a) as c) = settlements (Sess b) c"
  by (induction as arbitrary: c) (auto simp: session_onClosed_frame)

lemma onClose_not_live:
  assumes "b \<notin> set (live c)"
  shows "store (onClose c) ! b = store c ! b"
    and "settlements (Sess b) (onClose c) = settlements (Sess b) c"
proof -
  let ?c3 = "c\<lparr>closed := True, hooked := False,
               trace := trace c @ map (\<lambda>(k, cb). Reject Conn k (target_closed cb)) (callbacks c),
               callbacks := []\<rparr>"
  have f: "filter (settles (Sess b)) (map (\<lambda>(k, cb). Reject Conn k (target_closed cb)) m) = []" for m
    by (induction m) auto
  have 3: "store ?c3 = store c" "settlements (Sess b) ?c3 = settlements (Sess b) c"
    by (simp_all add: settlements_def f)
  have "\<not> closed c \<Longrightarrow> onClose c = emit ((fold (\<lambda>a c. session_onClosed c a) (live c) ?c3)\<lparr>sessions := []\<rparr>)
          Conn ConnectionDisconnected NoArg"
    by (simp add: onClose_def Let_def do_effects_def live_def)
  with fold_onClosed_not_live[OF assms, of ?c3] 3
  have "store (onClose c) ! b = store c ! b \<and>
        settlements (Sess b) (onClose c) = settlements (Sess b) c"
    by (cases "closed c") (simp_all add: onClose_closed)
  thus "store (onClose c) ! b = store c ! b"
    and "settlements (Sess b) (onClose c) = settlements (Sess b) c" by simp_all
qed

lemma onClose_live: "set (live (onClose c)) \<subseteq> set (live c)"
  using onClose_fields(4)[of c] by (cases "closed c") (simp_all add: onClose_closed live_def map_values_def)

lemma onClose_length: "length (store (onClose c)) = length (store c)"
  using onClose_fields(6)[of c] by (cases "closed c") (simp_all add: onClose_closed)

section \<open>Runs of well-formed states\<close>

lemma run_Nil [simp]: "run c [] = c"
  by (simp add: run_def)

lemma well_formed_new: "well_formed (new_Connection u)"
  by (simp add: well_formed_def new_Connection_def live_def map_values_def)

lemma step_simps:
  "step c (Send m p) = snd (send c m p)"
  "step c (SessionSend a m p) = (if a < length (store c) then snd (session_send c a m p) else c)"
  "step c (SessionDetach a) = (if a < length (store c) then snd (session_detach c a) else c)"
  "step c (CreateSession t) = snd (createSession_send c t)"
  "step c Dispose = dispose c"
  "step c (TransportMessage obj) = (if hooked c then snd (onMessage c obj) else c)"
  "step c TransportClosed = (if hooked c then onClose c else c)"
  by (simp_all add: step_def split_def Let_def split: sum.splits)

lemma well_formed_step: 
  assumes "well_formed c"
  shows "well_formed (step c x)"
proof (cases x)
  case (Send m p)
  have "well_formed (snd (send c m p)) = well_formed c"
    by (rule well_formed_shape) (simp_all add: send_frame)
  with assms Send show ?thesis by (simp add: step_simps)
next
  case (SessionSend a m p)
  have "well_formed (snd (session_send c a m p)) = well_formed c"
    by (rule well_formed_shape) (simp_all add: session_send_frame)
  with assms SessionSend show ?thesis by (simp add: step_simps)
next
  case (SessionDetach a)
  have "well_formed (snd (session_detach c a)) = well_formed c"
    by (rule well_formed_shape) (simp_all add: session_detach_frame)
  with assms SessionDetach show ?thesis by (simp add: step_simps)
next
  case (CreateSession t)
  have "well_formed (snd (createSession_send c t)) = well_formed c"
    by (rule well_formed_shape) (simp_all add: createSession_send_def send_frame)
  with assms CreateSession show ?thesis by (simp add: step_simps)
next
  case Dispose
  have "well_formed (dispose c) = well_formed (onClose c)"
    by (rule well_formed_shape) (simp_all add: dispose_def)
  with well_formed_onClose[OF assms] Dispose show ?thesis by (simp add: step_simps)
next
  case (TransportMessage obj)
  with well_formed_onMessage[OF assms, of obj] assms show ?thesis by (simp add: step_simps)
next
  case TransportClosed
  with well_formed_onClose[OF assms] assms show ?thesis by (simp add: step_simps)
qed

lemma well_formed_run: "well_formed c \<Longrightarrow> well_formed (run c ops)"
  by (induction ops arbitrary: c) (simp_all add: run_Cons well_formed_step)

lemma well_formed_reachable: "well_formed (run (new_Connection u) ops)"
  by (rule well_formed_run) (rule well_formed_new)

subsection \<open>A session that is not in the session map\<close>

lemma live_attached:
  assumes "attachedToTarget c obj = Inr c'"
  shows "set (live c') \<subseteq> insert (length (store c)) (set (live c))"
proof -
  from attachedToTarget_frame(1)[OF assms] obtain k
    where "sessions c' = map_set (sessions c) k (length (store c))" ..
  thus ?thesis using set_values_map_set[of "sessions c" k "length (store c)"]
    by (simp add: live_def)
qed

lemma live_detached:
  assumes "detachedFromTarget c obj = Inr c'"
  shows "set (live c') \<subseteq> set (live c)"
proof -
  from detachedFromTarget_frame(1)[OF assms] show ?thesis
  proof
    assume "sessions c' = sessions c" thus ?thesis by (simp add: live_def)
  next
    assume "\<exists>k. sessions c' = map_delete (sessions c) k"
    then obtain k where "sessions c' = map_delete (sessions c) k" ..
    thus ?thesis using set_values_map_delete[of "sessions c" k] by (simp add: live_def)
  qed
qed

lemma structural_not_live:
  assumes "structural c obj = Inr c1" and "old < length (store c)" and "old \<notin> set (live c)"
  shows "old < length (store c1) \<and> old \<notin> set (live c1) \<and> store c1 ! old = store c ! old \<and>
         settlements (Sess old) c1 = settlements (Sess old) c"
proof (rule structural_cases[OF assms(1)])
  assume a: "attachedToTarget c obj = Inr c1"
  from live_attached[OF a] assms(2,3) have "old \<notin> set (live c1)" by auto
  with attachedToTarget_frame(2-4)[OF a] assms(2) show ?thesis by simp
next
  assume d: "detachedFromTarget c obj = Inr c1"
  from live_detached[OF d] assms(3) have "old \<notin> set (live c1)" by auto
  with detachedFromTarget_frame(2)[OF d] detachedFromTarget_frame_not_live[OF d assms(3)] assms(2)
  show ?thesis by simp
next
  assume "c1 = c" with assms show ?thesis by simp
qed

lemma onMessage_not_live:
  assumes "old < length (store c)" and "old \<notin> set (live c)"
  shows "old < length (store (snd (onMessage c obj))) \<and>
         old \<notin> set (live (snd (onMessage c obj))) \<and>
         store (snd (onMessage c obj)) ! old = store c ! old \<and>
         settlements (Sess old) (snd (onMessage c obj)) = settlements (Sess old) c"
proof (rule onMessage_cases[of c obj])
  assume "snd (onMessage c obj) = c" with assms show ?thesis by simp
next
  fix c1 assume s: "structural c obj = Inr c1" and o: "onMessage c obj = dispatch c1 obj"
  from structural_not_live[OF s assms]
  have 1: "old < length (store c1)" "old \<notin> set (live c1)" "store c1 ! old = store c ! old"
    "settlements (Sess old) c1 = settlements (Sess old) c" by simp_all
  from dispatch_frame_not_live[OF 1(2), of obj] dispatch_frame(1,2)[of c1 obj] 1 o
  show ?thesis by (simp add: live_def)
qed

lemma onClose_not_live_all:
  assumes "old < length (store c)" and "old \<notin> set (live c)"
  shows "old < length (store (onClose c)) \<and>
         old \<notin> set (live (onClose c)) \<and>
         store (onClose c) ! old = store c ! old \<and>
         settlements (Sess old) (onClose c) = settlements (Sess old) c"
  using onClose_not_live[OF assms(2)] onClose_live[of c] onClose_length[of c] assms by auto

lemma step_not_live:
  assumes "old < length (store c)" and "old \<notin> set (live c)"
  shows "old < length (store (step c x)) \<and> old \<notin> set (live (step c x)) \<and>
         s_connection (store (step c x) ! old) = s_connection (store c ! old) \<and>
         settlements (Sess old) (step c x) = settlements (Sess old) c \<and>
         (\<forall>k. map_get (s_callbacks (store c ! old)) k \<noteq> None \<longrightarrow>
               map_get (s_callbacks (store (step c x) ! old)) k \<noteq> None)"
proof (cases x)
  case (Send m p)
  with assms show ?thesis by (simp add: step_simps send_frame live_def)
next
  case (SessionSend a m p)
  have "\<forall>k. map_get (s_callbacks (store c ! old)) k \<noteq> None \<longrightarrow>
            map_get (s_callbacks (store (snd (session_send c a m p)) ! old)) k \<noteq> None"
    using session_send_frame(7)[of c old _ a m p] by blast
  with SessionSend assms show ?thesis
    by (simp add: step_simps session_send_frame(1-6,8) live_def del: not_None_eq)
next
  case (SessionDetach a)
  with assms show ?thesis by (simp add: step_simps session_detach_frame live_def)
next
  case (CreateSession t)
  with assms show ?thesis
    by (simp add: step_simps createSession_send_def send_frame live_def)
next
  case Dispose
  with onClose_not_live_all[OF assms] show ?thesis by (simp add: step_simps dispose_def)
next
  case (TransportMessage obj)
  with onMessage_not_live[OF assms, of obj] assms show ?thesis by (simp add: step_simps)
next
  case TransportClosed
  with onClose_not_live_all[OF assms] assms show ?thesis by (simp add: step_simps)
qed

lemma run_not_live:
  assumes "old < length (store c)" and "old \<notin> set (live c)"
  shows "old < length (store (run c ops)) \<and> old \<notin> set (live (run c ops)) \<and>
         s_connection (store (run c ops) ! old) = s_connection (store c ! old) \<and>
         settlements (Sess old) (run c ops) = settlements (Sess old) c \<and>
         (\<forall>k. map_get (s_callbacks (store c ! old)) k \<noteq> None \<longrightarrow>
               map_get (s_callbacks (store (run c ops) ! old)) k \<noteq> None)"
  using assms
proof (induction ops arbitrary: c)
  case Nil thus ?case by simp
next
  case (Cons x xs)
  note s = step_not_live[OF Cons.prems, of x]
  from s have 1: "old < length (store (step c x))" "old \<notin> set (live (step c x))" by simp_all
  from Cons.IH[OF 1] s show ?case by (simp add: run_Cons)
qed

section \<open>Replaced sessions\<close>

lemma replaced_value_gone:
  "distinct (map snd m) \<Longrightarrow> map_of m k = Some old \<Longrightarrow> old \<noteq> v \<Longrightarrow>
   old \<notin> set (map snd (map (\<lambda>(k', v'). if k' = k then (k', v) else (k', v')) m))"
proof (induction m)
  case Nil thus ?case by simp
next
  case (Cons x m)
  obtain k' v' where x: "x = (k', v')" by (cases x)
  note sub = set_values_update[of k v m]
  show ?case
  proof (cases "k' = k")
    case True
    with Cons.prems x have "v' = old" "old \<notin> set (map snd m)" by auto
    with sub Cons.prems(3) True x show ?thesis by auto
  next
    case False
    with Cons.prems x have t: "map_of m k = Some old" "distinct (map snd m)" by auto
    from t(1) have "old \<in> set (map snd m)" by (auto dest!: map_of_SomeD intro: rev_image_eqI)
    with Cons.prems(1) x have "v' \<noteq> old" by auto
    with Cons.IH[OF t(2) t(1) Cons.prems(3)] False x show ?thesis by simp
  qed
qed

lemma replaced_not_live:
  assumes "distinct (map_values m)" and "map_get m k = Some old" and "old \<noteq> v"
  shows "old \<notin> set (map_values (map_set m k v))"
proof -
  from assms(2) have mo: "map_of m k = Some old" by (auto simp: map_get_def split: if_splits)
  from assms(2) have "map_set m k v = map (\<lambda>(k', v'). if k' = k then (k', v) else (k', v')) m"
    by (simp add: map_set_def)
  with replaced_value_gone[OF _ mo assms(3)] assms(1) show ?thesis
    by (simp add: map_values_def)
qed

lemma attach_notification:
  assumes "get_prop object ''method'' = Inr (str ''Target.attachedToTarget'')"
    and "get_prop object ''params'' = Inr params"
    and "get_prop params ''sessionId'' = Inr sessionId"
    and "get_prop params ''targetInfo'' = Inr targetInfo"
    and "get_prop targetInfo ''type'' = Inr targetType"
  obtains c1 outer where "get_prop object ''sessionId'' = Inr outer"
    and "attachedToTarget c object = Inr c1" and "onMessage c object = dispatch c1 object"
    and "sessions c1 = map_set (sessions c) sessionId (length (store c))"
    and "store c1 = store c @ [\<lparr>s_sessionId = sessionId, s_targetType = targetType,
                                 s_callbacks = [], s_connection = Some ThisConnection\<rparr>]"
    and "trace c1 = trace c @
           Emit Conn (Named (str ''sessionattached'')) (SessionRef (length (store c))) #
           (case map_get (sessions c1) outer of None \<Rightarrow> []
            | Some p \<Rightarrow> [Emit (Sess p) (Named (str ''sessionattached'')) (SessionRef (length (store c)))])"
    and "callbacks c1 = callbacks c"
proof -
  from get_prop_defined[OF assms(1)] obtain outer
    where o: "get_prop object ''sessionId'' = Inr outer" by blast
  note eq = attachedToTarget_eq[OF assms(2-5) o, of c]
  then obtain c1 where c1: "attachedToTarget c object = Inr c1" by simp
  have "structural c object = Inr c1"
    using assms(1) c1 by (simp add: structural_def bind_js_def)
  hence r: "onMessage c object = dispatch c1 object" by (simp add: onMessage_def)
  from eq c1 have
    "sessions c1 = map_set (sessions c) sessionId (length (store c))"
    "store c1 = store c @ [\<lparr>s_sessionId = sessionId, s_targetType = targetType,
                                 s_callbacks = [], s_connection = Some ThisConnection\<rparr>]"
    "trace c1 = trace c @
           Emit Conn (Named (str ''sessionattached'')) (SessionRef (length (store c))) #
           (case map_get (sessions c1) outer of None \<Rightarrow> []
            | Some p \<Rightarrow> [Emit (Sess p) (Named (str ''sessionattached'')) (SessionRef (length (store c)))])"
    "callbacks c1 = callbacks c"
    by (auto simp: Let_def split: option.splits)
  with o c1 r show thesis by (rule that)
qed

text \<open>
  Claim C10. When an attach notification carries a session id under which a session is
  already registered, in a state reached from a new Connection, the router registers a new
  session under that id, bound
  to the Connection and with an empty table, and the session registered before leaves the
  session map without its closure routine being run: the object is as it was. Whatever the
  callers and the transport do afterwards, that session never returns to the map, keeps its
  connection reference, no pending call of its table is ever resolved or rejected, and the
  calls stay in its table.
\<close>

theorem replaced_session_is_never_settled:
  assumes "get_prop object ''method'' = Inr (str ''Target.attachedToTarget'')"
    and "get_prop object ''params'' = Inr params"
    and "get_prop params ''sessionId'' = Inr (str S)"
    and "get_prop params ''targetInfo'' = Inr targetInfo"
    and "get_prop targetInfo ''type'' = Inr targetType"
    and "c = run (new_Connection u) ops0" and "session c S = Some old"
  shows "session (snd (onMessage c object)) S = Some (length (store c)) \<and>
         length (store c) \<noteq> old \<and>
         s_connection (store (snd (onMessage c object)) ! length (store c)) = Some ThisConnection \<and>
         s_callbacks (store (snd (onMessage c object)) ! length (store c)) = [] \<and>
         store (snd (onMessage c object)) ! old = store c ! old \<and>
         (\<forall>ops. old \<notin> set (live (run (snd (onMessage c object)) ops)) \<and>
                s_connection (store (run (snd (onMessage c object)) ops) ! old) =
                  s_connection (store c ! old) \<and>
                settlements (Sess old) (run (snd (onMessage c object)) ops) =
                  settlements (Sess old) c \<and>
                (\<forall>k. map_get (s_callbacks (store c ! old)) k \<noteq> None \<longrightarrow>
                     map_get (s_callbacks (store (run (snd (onMessage c object)) ops) ! old)) k
                       \<noteq> None))"
proof -
  let ?n = "length (store c)"
  let ?c' = "snd (onMessage c object)"
  from assms(7) have g: "map_get (sessions c) (str S) = Some old" by (simp add: session_def)
  from assms(6) have "well_formed c" by (simp add: well_formed_reachable)
  hence d: "distinct (map_values (sessions c))"
    and b: "\<forall>a\<in>set (map_values (sessions c)). a < length (store c)"
    by (simp_all add: well_formed_def live_def list_all_iff)
  from map_get_in_values[OF g] b have old: "old < ?n" by blast
  obtain c1 outer where c1: "attachedToTarget c object = Inr c1"
    and r: "onMessage c object = dispatch c1 object"
    and s1: "sessions c1 = map_set (sessions c) (str S) ?n"
    and sto1: "store c1 = store c @ [\<lparr>s_sessionId = str S, s_targetType = targetType,
                                 s_callbacks = [], s_connection = Some ThisConnection\<rparr>]"
    by (rule attach_notification[OF assms(1-5), of c]) blast
  have fresh: "s_connection (store ?c' ! ?n) = Some ThisConnection"
    "s_callbacks (store ?c' ! ?n) = []"
    using r sto1 by (simp_all add: dispatch_frame)
  have nl1: "old \<notin> set (live c1)"
    using replaced_not_live[OF d g, of ?n] old s1 by (simp add: live_def)
  have st1: "store c1 ! old = store c ! old" "settlements (Sess old) c1 = settlements (Sess old) c"
    "length (store c1) = Suc ?n"
    using attachedToTarget_frame(2-4)[OF c1] old by simp_all
  have nl: "old \<notin> set (live ?c')" using nl1 r by (simp add: live_def dispatch_frame)
  have len: "old < length (store ?c')" using st1(3) old r by (simp add: dispatch_frame)
  have st: "store ?c' ! old = store c ! old" "settlements (Sess old) ?c' = settlements (Sess old) c"
    using dispatch_frame_not_live[OF nl1, of object] st1 r by simp_all
  have "session ?c' S = Some ?n"
    using r s1 by (simp add: session_def dispatch_frame map_get_set_same str_def)
  moreover have "?n \<noteq> old" using old by simp
  moreover have "\<forall>ops. old \<notin> set (live (run ?c' ops)) \<and>
                s_connection (store (run ?c' ops) ! old) = s_connection (store c ! old) \<and>
                settlements (Sess old) (run ?c' ops) = settlements (Sess old) c \<and>
                (\<forall>k. map_get (s_callbacks (store c ! old)) k \<noteq> None \<longrightarrow>
                     map_get (s_callbacks (store (run ?c' ops) ! old)) k \<noteq> None)"
  proof
    fix ops
    from run_not_live[OF len nl, of ops] st
    show "old \<notin> set (live (run ?c' ops)) \<and>
                s_connection (store (run ?c' ops) ! old) = s_connection (store c ! old) \<and>
                settlements (Sess old) (run ?c' ops) = settlements (Sess old) c \<and>
                (\<forall>k. map_get (s_callbacks (store c ! old)) k \<noteq> None \<longrightarrow>
                     map_get (s_callbacks (store (run ?c' ops) ! old)) k \<noteq> None)"
      by simp
  qed
  ultimately show ?thesis using st(1) fresh by blast
qed

theorem replaced_session_is_never_settled_witness:
  "session replace_demo ''S1'' = Some 0 \<and>
   session (snd (onMessage replace_demo (Some (JObj (attached_notification ''S1'' ''page''))))) ''S1''
     = Some 1 \<and>
   settlements (Sess 0)
     (run (snd (onMessage replace_demo (Some (JObj (attached_notification ''S1'' ''page'')))))
        [TransportMessage (Some (JObj [(''id'', jnum 1), (''sessionId'', JStr ''S1''), (''result'', JObj [])])),
         Dispose]) = [] \<and>
   s_connection (store
     (run (snd (onMessage replace_demo (Some (JObj (attached_notification ''S1'' ''page'')))))
        [TransportMessage (Some (JObj [(''id'', jnum 1), (''sessionId'', JStr ''S1''), (''result'', JObj [])])),
         Dispose]) ! 0) = Some ThisConnection \<and>
   s_callbacks (store
     (run (snd (onMessage replace_demo (Some (JObj (attached_notification ''S1'' ''page'')))))
        [TransportMessage (Some (JObj [(''id'', jnum 1), (''sessionId'', JStr ''S1''), (''result'', JObj [])])),
         Dispose]) ! 0) = [(num 1, \<lparr>cb_error = new_ProtocolError, cb_method = ''Page.enable''\<rparr>)]"
proof -
  let ?obj = "Some (JObj (attached_notification ''S1'' ''page''))"
  let ?ops = "[TransportMessage (Some (JObj [(''id'', jnum 1), (''sessionId'', JStr ''S1''), (''result'', JObj [])])),
         Dispose]"
  have h1: "get_prop ?obj ''method'' = Inr (str ''Target.attachedToTarget'')"
    by (simp add: attached_notification_def str_def)
  have h2: "get_prop ?obj ''params'' =
      Inr (Some (JObj [(''sessionId'', JStr ''S1''), (''targetInfo'', JObj [(''type'', JStr ''page'')])]))"
    by (simp add: attached_notification_def)
  have h3: "get_prop (Some (JObj [(''sessionId'', JStr ''S1''), (''targetInfo'', JObj [(''type'', JStr ''page'')])]))
      ''sessionId'' = Inr (str ''S1'')" by (simp add: str_def)
  have h4: "get_prop (Some (JObj [(''sessionId'', JStr ''S1''), (''targetInfo'', JObj [(''type'', JStr ''page'')])]))
      ''targetInfo'' = Inr (Some (JObj [(''type'', JStr ''page'')]))" by simp
  have h5: "get_prop (Some (JObj [(''type'', JStr ''page'')])) ''type'' = Inr (str ''page'')"
    by (simp add: str_def)
  have h6: "replace_demo = run (new_Connection ''ws'')
     [TransportMessage (Some (JObj (attached_notification ''S1'' ''page''))),
      SessionSend 0 ''Page.enable'' None]" by (simp add: replace_demo_def)
  have h7: "session replace_demo ''S1'' = Some 0" by code_simp
  have l: "length (store replace_demo) = 1" by code_simp
  have s0: "settlements (Sess 0) replace_demo = []" by code_simp
  have c0: "s_connection (store replace_demo ! 0) = Some ThisConnection" by code_simp
  have cb: "s_callbacks (store (run (snd (onMessage replace_demo ?obj)) ?ops) ! 0) =
     [(num 1, \<lparr>cb_error = new_ProtocolError, cb_method = ''Page.enable''\<rparr>)]" by code_simp
  from replaced_session_is_never_settled[OF h1 h2 h3 h4 h5 h6 h7] l s0 c0
  have "session (snd (onMessage replace_demo ?obj)) ''S1'' = Some 1 \<and>
        settlements (Sess 0) (run (snd (onMessage replace_demo ?obj)) ?ops) = [] \<and>
        s_connection (store (run (snd (onMessage replace_demo ?obj)) ?ops) ! 0) = Some ThisConnection"
    by simp
  with h7 cb show ?thesis by simp
qed

section \<open>Attach and detach\<close>

lemma map_get_set_other: "k \<noteq> k' \<Longrightarrow> map_get (map_set m k' v) k = map_get m k"
proof -
  assume ne: "k \<noteq> k'"
  have "map_of (map (\<lambda>(k'', v'). if k'' = k' then (k'', v) else (k'', v')) m) k = map_of m k"
    using ne by (induction m) auto
  moreover have "map_of (m @ [(k', v)]) k = map_of m k"
    using ne by (induction m) auto
  ultimately show ?thesis by (simp add: map_get_def map_set_def)
qed

lemma attachedToTarget_key:
  assumes "attachedToTarget c obj = Inr c1"
  obtains p k where "get_prop obj ''params'' = Inr p" and "get_prop p ''sessionId'' = Inr k"
    and "sessions c1 = map_set (sessions c) k (length (store c))"
proof -
  from assms obtain p where p: "get_prop obj ''params'' = Inr p"
    by (cases "get_prop obj ''params''") (simp_all add: attachedToTarget_def bind_js_def)
  from assms p obtain k where k: "get_prop p ''sessionId'' = Inr k"
    by (cases "get_prop p ''sessionId''") (simp_all add: attachedToTarget_def bind_js_def)
  from assms p k obtain ti where ti: "get_prop p ''targetInfo'' = Inr ti"
    by (cases "get_prop p ''targetInfo''") (simp_all add: attachedToTarget_def bind_js_def)
  from assms p k ti obtain ty where ty: "get_prop ti ''type'' = Inr ty"
    by (cases "get_prop ti ''type''") (simp_all add: attachedToTarget_def bind_js_def)
  from get_prop_defined[OF p] obtain outer where o: "get_prop obj ''sessionId'' = Inr outer"
    by blast
  from attachedToTarget_eq[OF p k ti ty o, of c] assms
  have "sessions c1 = map_set (sessions c) k (length (store c))"
    by (auto simp: Let_def split: option.splits)
  with p k show thesis by (rule that)
qed

lemma structural_absent:
  assumes "structural c obj = Inr c1" and "map_get (sessions c) (str S) = None"
    and "\<not> attaches S (TransportMessage obj)"
  shows "map_get (sessions c1) (str S) = None"
proof -
  from assms(1) obtain m where m: "get_prop obj ''method'' = Inr m"
    by (cases "get_prop obj ''method''") (simp_all add: structural_def bind_js_def)
  show ?thesis
  proof (cases "m = str ''Target.attachedToTarget''")
    case True
    with assms(1) m have a: "attachedToTarget c obj = Inr c1"
      by (simp add: structural_def bind_js_def)
    then obtain p k where p: "get_prop obj ''params'' = Inr p"
      and k: "get_prop p ''sessionId'' = Inr k"
      and s: "sessions c1 = map_set (sessions c) k (length (store c))"
      by (rule attachedToTarget_key)
    from assms(3) m True p k have "str S \<noteq> k" by auto
    with s assms(2) show ?thesis by (simp add: map_get_set_other)
  next
    case False
    show ?thesis
    proof (cases "m = str ''Target.detachedFromTarget''")
      case True
      with assms(1) m False have "detachedFromTarget c obj = Inr c1"
        by (simp add: structural_def bind_js_def)
      from detachedFromTarget_frame(1)[OF this] assms(2) show ?thesis
        by (auto simp: map_get_delete)
    next
      case no: False
      with assms(1) m False have "c1 = c" by (simp add: structural_def bind_js_def)
      with assms(2) show ?thesis by simp
    qed
  qed
qed

lemma onMessage_absent:
  assumes "session c S = None" and "\<not> attaches S (TransportMessage obj)"
  shows "session (snd (onMessage c obj)) S = None"
proof (rule onMessage_cases[of c obj])
  assume "snd (onMessage c obj) = c" with assms show ?thesis by simp
next
  fix c1 assume s: "structural c obj = Inr c1" and o: "onMessage c obj = dispatch c1 obj"
  from structural_absent[OF s _ assms(2)] assms(1)
  have "map_get (sessions c1) (str S) = None" by (simp add: session_def)
  with o show ?thesis by (simp add: session_def dispatch_frame)
qed

lemma onClose_absent: "session c S = None \<Longrightarrow> session (onClose c) S = None"
  using onClose_fields(4)[of c]
  by (cases "closed c") (simp_all add: onClose_closed session_def map_get_def)

lemma step_absent:
  assumes "session c S = None" and "\<not> attaches S x"
  shows "session (step c x) S = None"
proof (cases x)
  case (Send m p)
  with assms show ?thesis by (simp add: step_simps session_def send_frame)
next
  case (SessionSend a m p)
  with assms show ?thesis by (simp add: step_simps session_def session_send_frame)
next
  case (SessionDetach a)
  with assms show ?thesis by (simp add: step_simps session_def session_detach_frame)
next
  case (CreateSession t)
  with assms show ?thesis by (simp add: step_simps session_def createSession_send_def send_frame)
next
  case Dispose
  with onClose_absent[OF assms(1)] show ?thesis by (simp add: step_simps session_def dispose_def)
next
  case (TransportMessage obj)
  with onMessage_absent[OF assms(1), of obj] assms show ?thesis by (simp add: step_simps)
next
  case TransportClosed
  with onClose_absent[OF assms(1)] assms show ?thesis by (simp add: step_simps)
qed

lemma run_absent:
  "session c S = None \<Longrightarrow> list_all (\<lambda>x. \<not> attaches S x) ops \<Longrightarrow> session (run c ops) S = None"
  by (induction ops arbitrary: c) (simp_all add: run_Cons step_absent)

lemma detach_notification:
  assumes "get_prop object ''method'' = Inr (str ''Target.detachedFromTarget'')"
    and "get_prop object ''params'' = Inr params"
    and "get_prop params ''sessionId'' = Inr sessionId"
    and "map_get (sessions d) sessionId = Some a"
  obtains c1 es where "onMessage d object = dispatch c1 object"
    and "sessions c1 = map_delete (sessions d) sessionId"
    and "store c1 = (store d)[a := closed_session (store d ! a)]"
    and "trace c1 = trace d @ closing_effects (store d ! a) a @
                    Emit Conn (Named (str ''sessiondetached'')) (SessionRef a) # es"
proof -
  from get_prop_defined[OF assms(1)] obtain outer
    where o: "get_prop object ''sessionId'' = Inr outer" by blast
  let ?es = "case map_get (map_delete (sessions d) sessionId) outer of None \<Rightarrow> []
        | Some p \<Rightarrow> [Emit (Sess p) (Named (str ''sessiondetached'')) (SessionRef a)]"
  let ?c1 = "(session_onClosed d a)\<lparr>sessions := map_delete (sessions d) sessionId,
       trace := trace d @ closing_effects (store d ! a) a @
                    Emit Conn (Named (str ''sessiondetached'')) (SessionRef a) # ?es\<rparr>"
  have "detachedFromTarget d object = Inr ?c1"
    using assms(2-4) o
    by (simp add: detachedFromTarget_def bind_js_def Let_def emit_def do_effects_def
                  session_onClosed_eq split: option.splits)
  moreover have "str ''Target.detachedFromTarget'' \<noteq> str ''Target.attachedToTarget''"
    by (simp add: str_def)
  ultimately have "structural d object = Inr ?c1"
    using assms(1) by (simp add: structural_def bind_js_def)
  hence "onMessage d object = dispatch ?c1 object" by (simp add: onMessage_def)
  moreover have "sessions ?c1 = map_delete (sessions d) sessionId" by simp
  moreover have "store ?c1 = (store d)[a := closed_session (store d ! a)]"
    by (simp add: session_onClosed_eq)
  moreover have "trace ?c1 = trace d @ closing_effects (store d ! a) a @
                    Emit Conn (Named (str ''sessiondetached'')) (SessionRef a) # ?es" by simp
  ultimately show thesis by (rule that)
qed

lemma detached_value_gone:
  "distinct (map snd m) \<Longrightarrow> map_of m k = Some a \<Longrightarrow>
   a \<notin> set (map snd (filter (\<lambda>(k', v'). k' \<noteq> k) m))"
proof (induction m)
  case Nil thus ?case by simp
next
  case (Cons x m)
  obtain k' v' where x: "x = (k', v')" by (cases x)
  show ?case
  proof (cases "k' = k")
    case True
    with Cons.prems x have "a \<notin> set (map snd m)" by auto
    hence "a \<notin> set (map snd (filter (\<lambda>(k', v'). k' \<noteq> k) m))" by auto
    with True x show ?thesis by simp
  next
    case False
    with Cons.prems x have t: "map_of m k = Some a" "distinct (map snd m)" by auto
    from t(1) have "a \<in> set (map snd m)" by (auto dest!: map_of_SomeD intro: rev_image_eqI)
    with Cons.prems(1) x have "v' \<noteq> a" by auto
    with Cons.IH[OF t(2) t(1)] False x show ?thesis by simp
  qed
qed

lemma detached_not_live:
  assumes "distinct (map_values m)" and "map_get m k = Some a"
  shows "a \<notin> set (map_values (map_delete m k))"
proof -
  from assms(2) have "map_of m k = Some a" "\<not> by_reference k"
    by (auto simp: map_get_def split: if_splits)
  with detached_value_gone[of m k a] assms(1) show ?thesis
    by (simp add: map_values_def map_delete_def)
qed

lemma detach_closes:
  assumes "get_prop e2 ''method'' = Inr (str ''Target.detachedFromTarget'')"
    and "get_prop e2 ''params'' = Inr p2"
    and "get_prop p2 ''sessionId'' = Inr (str S)"
    and "well_formed d" and "session d S = Some a"
  shows "session (receive d e2) S = None"
    and "s_connection (store (receive d e2) ! a) = None"
    and "s_callbacks (store (receive d e2) ! a) = []"
    and "\<exists>es. trace (receive d e2) = trace d @ closing_effects (store d ! a) a @
               Emit Conn (Named (str ''sessiondetached'')) (SessionRef a) # es"
    and "a < length (store (receive d e2))" and "a \<notin> set (live (receive d e2))"
proof -
  from assms(5) have g: "map_get (sessions d) (str S) = Some a" by (simp add: session_def)
  from assms(4) have dv: "distinct (map_values (sessions d))"
    and b: "\<forall>a\<in>set (map_values (sessions d)). a < length (store d)"
    by (simp_all add: well_formed_def live_def list_all_iff)
  from map_get_in_values[OF g] b have a: "a < length (store d)" by blast
  obtain d1 es1 where r2: "onMessage d e2 = dispatch d1 e2"
    and s2: "sessions d1 = map_delete (sessions d) (str S)"
    and st2: "store d1 = (store d)[a := closed_session (store d ! a)]"
    and t2: "trace d1 = trace d @ closing_effects (store d ! a) a @
                  Emit Conn (Named (str ''sessiondetached'')) (SessionRef a) # es1"
    by (rule detach_notification[OF assms(1-3) g])
  obtain es2 where es2: "trace (receive d e2) = trace d1 @ es2"
    using dispatch_frame(6)[of d1 e2] r2 by auto
  show "session (receive d e2) S = None"
    using r2 s2 by (simp add: session_def dispatch_frame map_get_delete)
  show "s_connection (store (receive d e2) ! a) = None"
    using r2 st2 a by (simp add: dispatch_frame closed_session_def)
  have "s_callbacks (store d1 ! a) = []" using st2 a by (simp add: closed_session_def)
  thus "s_callbacks (store (receive d e2) ! a) = []"
    using r2 by (simp add: dispatch_frame)
  show "\<exists>es. trace (receive d e2) = trace d @ closing_effects (store d ! a) a @
               Emit Conn (Named (str ''sessiondetached'')) (SessionRef a) # es"
    using es2 t2 by simp
  show "a < length (store (receive d e2))" using r2 st2 a by (simp add: dispatch_frame)
  show "a \<notin> set (live (receive d e2))"
    using detached_not_live[OF dv g] r2 s2 by (simp add: live_def dispatch_frame)
qed

lemma structural_registered:
  assumes "structural c obj = Inr c1" and "map_get (sessions c) (str S) = Some n"
    and "\<not> attaches S (TransportMessage obj)"
  shows "map_get (sessions c1) (str S) = Some n \<or>
         (get_prop obj ''method'' = Inr (str ''Target.detachedFromTarget'') \<and>
          (\<exists>p. get_prop obj ''params'' = Inr p \<and> get_prop p ''sessionId'' = Inr (str S)))"
proof -
  from assms(1) obtain m where m: "get_prop obj ''method'' = Inr m"
    by (cases "get_prop obj ''method''") (simp_all add: structural_def bind_js_def)
  show ?thesis
  proof (cases "m = str ''Target.attachedToTarget''")
    case True
    with assms(1) m have a: "attachedToTarget c obj = Inr c1"
      by (simp add: structural_def bind_js_def)
    then obtain p k where p: "get_prop obj ''params'' = Inr p"
      and k: "get_prop p ''sessionId'' = Inr k"
      and s: "sessions c1 = map_set (sessions c) k (length (store c))"
      by (rule attachedToTarget_key)
    from assms(3) m True p k have "str S \<noteq> k" by auto
    with s assms(2) show ?thesis by (simp add: map_get_set_other)
  next
    case False
    show ?thesis
    proof (cases "m = str ''Target.detachedFromTarget''")
      case True
      with assms(1) m False have d: "detachedFromTarget c obj = Inr c1"
        by (simp add: structural_def bind_js_def)
      from d obtain p where p: "get_prop obj ''params'' = Inr p"
        by (cases "get_prop obj ''params''") (simp_all add: detachedFromTarget_def bind_js_def)
      from d p obtain k where k: "get_prop p ''sessionId'' = Inr k"
        by (cases "get_prop p ''sessionId''") (simp_all add: detachedFromTarget_def bind_js_def)
      show ?thesis
      proof (cases "k = str S")
        case True
        with m \<open>m = str ''Target.detachedFromTarget''\<close> p k show ?thesis by blast
      next
        case ne: False
        have "map_get (sessions c1) (str S) = Some n"
        proof (cases "map_get (sessions c) k")
          case None
          with d p k have "c1 = c" by (simp add: detachedFromTarget_def bind_js_def)
          with assms(2) show ?thesis by simp
        next
          case (Some a)
          from m True have m': "get_prop obj ''method'' = Inr (str ''Target.detachedFromTarget'')"
            by simp
          obtain c2 es where o: "onMessage c obj = dispatch c2 obj"
            and s2: "sessions c2 = map_delete (sessions c) k"
            by (rule detach_notification[OF m' p k Some])
          from o assms(1) have "dispatch c2 obj = dispatch c1 obj" by (simp add: onMessage_def)
          hence "sessions c2 = sessions c1" using dispatch_frame(1)[of c1 obj] dispatch_frame(1)[of c2 obj]
            by simp
          with s2 ne assms(2) show ?thesis by (simp add: map_get_delete)
        qed
        thus ?thesis ..
      qed
    next
      case no: False
      with assms(1) m False have "c1 = c" by (simp add: structural_def bind_js_def)
      with assms(2) show ?thesis by simp
    qed
  qed
qed

lemma attached_or_closedI1:
  "well_formed c \<Longrightarrow> session c S = Some n \<Longrightarrow> attached_or_closed c S n"
  using map_get_in_values[of "sessions c" "str S" n]
  by (auto simp: attached_or_closed_def session_def well_formed_def live_def list_all_iff)

lemma attached_or_closedI2:
  "well_formed c \<Longrightarrow> n < length (store c) \<Longrightarrow> session c S = None \<Longrightarrow> n \<notin> set (live c) \<Longrightarrow>
   s_connection (store c ! n) = None \<Longrightarrow> s_callbacks (store c ! n) = [] \<Longrightarrow>
   attached_or_closed c S n"
  by (simp add: attached_or_closed_def)

lemma step_fixed:
  assumes "n < length (store c)" and "n \<notin> set (live c)" and "s_connection (store c ! n) = None"
  shows "store (step c x) ! n = store c ! n"
proof (cases x)
  case (Send m p)
  thus ?thesis by (simp add: step_simps send_frame)
next
  case (SessionSend a m p)
  show ?thesis
  proof (cases "a = n")
    case True
    with SessionSend assms(3) show ?thesis by (simp add: step_simps session_send_detached)
  next
    case False
    with SessionSend show ?thesis by (simp add: step_simps session_send_frame(5))
  qed
next
  case (SessionDetach a)
  thus ?thesis by (simp add: step_simps session_detach_frame)
next
  case (CreateSession t)
  thus ?thesis by (simp add: step_simps createSession_send_def send_frame)
next
  case Dispose
  with onClose_not_live(1)[OF assms(2)] show ?thesis by (simp add: step_simps dispose_def)
next
  case (TransportMessage obj)
  with onMessage_not_live[OF assms(1,2), of obj] show ?thesis by (simp add: step_simps)
next
  case TransportClosed
  with onClose_not_live(1)[OF assms(2)] show ?thesis by (simp add: step_simps)
qed

lemma onMessage_attached_or_closed:
  assumes "attached_or_closed c S n" and "\<not> attaches S (TransportMessage obj)"
  shows "attached_or_closed (receive c obj) S n"
proof -
  from assms(1) have wf: "well_formed c" and n: "n < length (store c)"
    by (simp_all add: attached_or_closed_def)
  have wf': "well_formed (receive c obj)" using wf by (rule well_formed_onMessage)
  from assms(1) consider (reg) "session c S = Some n"
    | (gone) "session c S = None" "n \<notin> set (live c)" "s_connection (store c ! n) = None"
        "s_callbacks (store c ! n) = []"
    by (auto simp: attached_or_closed_def)
  thus ?thesis
  proof cases
    case gone
    from onMessage_not_live[OF n gone(2), of obj] gone(3,4)
    have "n < length (store (receive c obj))" "n \<notin> set (live (receive c obj))"
      "s_connection (store (receive c obj) ! n) = None" "s_callbacks (store (receive c obj) ! n) = []"
      by simp_all
    with onMessage_absent[OF gone(1) assms(2)] wf' show ?thesis
      by (simp add: attached_or_closedI2)
  next
    case reg
    hence g: "map_get (sessions c) (str S) = Some n" by (simp add: session_def)
    show ?thesis
    proof (rule onMessage_cases[of c obj])
      assume "receive c obj = c" with assms(1) show ?thesis by simp
    next
      fix c1 assume s: "structural c obj = Inr c1" and o: "onMessage c obj = dispatch c1 obj"
      from structural_registered[OF s g assms(2)] show ?thesis
      proof
        assume "map_get (sessions c1) (str S) = Some n"
        with o have "session (receive c obj) S = Some n" by (simp add: session_def dispatch_frame)
        with wf' show ?thesis by (rule attached_or_closedI1)
      next
        assume "get_prop obj ''method'' = Inr (str ''Target.detachedFromTarget'') \<and>
          (\<exists>p. get_prop obj ''params'' = Inr p \<and> get_prop p ''sessionId'' = Inr (str S))"
        then obtain p where m: "get_prop obj ''method'' = Inr (str ''Target.detachedFromTarget'')"
          and p: "get_prop obj ''params'' = Inr p" and k: "get_prop p ''sessionId'' = Inr (str S)"
          by blast
        note D = detach_closes[OF m p k wf reg]
        from wf' D(5) D(1) D(6) D(2) D(3) show ?thesis by (rule attached_or_closedI2)
      qed
    qed
  qed
qed

lemma onClose_attached_or_closed:
  assumes "attached_or_closed c S n"
  shows "attached_or_closed (onClose c) S n"
proof (cases "closed c")
  case True with assms show ?thesis by (simp add: onClose_closed)
next
  case False
  from assms have wf: "well_formed c" and n: "n < length (store c)"
    by (simp_all add: attached_or_closed_def)
  have wf': "well_formed (onClose c)" using wf by (rule well_formed_onClose)
  have l: "n < length (store (onClose c))" using n onClose_length[of c] by simp
  have s: "session (onClose c) S = None"
    using onClose_fields(4)[OF False] by (simp add: session_def map_get_def)
  have nl: "n \<notin> set (live (onClose c))"
    using onClose_fields(4)[OF False] by (simp add: live_def map_values_def)
  from assms consider (reg) "session c S = Some n"
    | (gone) "n \<notin> set (live c)" "s_connection (store c ! n) = None"
        "s_callbacks (store c ! n) = []"
    by (auto simp: attached_or_closed_def)
  hence "s_connection (store (onClose c) ! n) = None \<and> s_callbacks (store (onClose c) ! n) = []"
  proof cases
    case reg
    hence "n \<in> set (live c)" using map_get_live[of c "str S" n] by (simp add: session_def)
    with onClose_store[OF False wf, of n] show ?thesis by (simp add: closed_session_def)
  next
    case gone
    with onClose_not_live(1)[OF gone(1)] show ?thesis by simp
  qed
  with wf' l s nl show ?thesis by (simp add: attached_or_closedI2)
qed

lemma step_attached_or_closed:
  assumes "attached_or_closed c S n" and "\<not> attaches S x"
  shows "attached_or_closed (step c x) S n"
proof (cases x)
  case (TransportMessage obj)
  with onMessage_attached_or_closed[OF assms(1), of obj] assms show ?thesis
    by (simp add: step_simps)
next
  case TransportClosed
  with onClose_attached_or_closed[OF assms(1)] assms(1) show ?thesis by (simp add: step_simps)
next
  case Dispose
  have "attached_or_closed (dispose c) S n = attached_or_closed (onClose c) S n"
    using well_formed_shape[of "dispose c" "onClose c"]
    by (simp add: attached_or_closed_def dispose_def session_def)
  with onClose_attached_or_closed[OF assms(1)] Dispose show ?thesis by (simp add: step_simps)
next
  case (Send m p)
  have "attached_or_closed (snd (send c m p)) S n = attached_or_closed c S n"
    using well_formed_shape[of "snd (send c m p)" c]
    by (simp add: attached_or_closed_def session_def send_frame live_def)
  with assms(1) Send show ?thesis by (simp add: step_simps)
next
  case (CreateSession t)
  have "attached_or_closed (snd (send c ''Target.attachToTarget''
           (Some (JObj [(''targetId'', JStr t), (''flatten'', JBool True)])))) S n =
        attached_or_closed c S n"
    using well_formed_shape[of "snd (send c ''Target.attachToTarget''
           (Some (JObj [(''targetId'', JStr t), (''flatten'', JBool True)])))" c]
    by (simp add: attached_or_closed_def session_def send_frame live_def)
  with assms(1) CreateSession show ?thesis by (simp add: step_simps createSession_send_def)
next
  case (SessionDetach a)
  have "attached_or_closed (snd (session_detach c a)) S n = attached_or_closed c S n"
    using well_formed_shape[of "snd (session_detach c a)" c]
    by (simp add: attached_or_closed_def session_def session_detach_frame live_def)
  with assms(1) SessionDetach show ?thesis by (simp add: step_simps)
next
  case (SessionSend a m p)
  from assms(1) have wf: "well_formed c" and n: "n < length (store c)"
    by (simp_all add: attached_or_closed_def)
  have wf': "well_formed (step c x)" using wf by (rule well_formed_step)
  have se: "session (step c x) S = session c S"
    using SessionSend by (simp add: step_simps session_def session_send_frame)
  have li: "live (step c x) = live c"
    using SessionSend by (simp add: step_simps live_def session_send_frame)
  have le: "n < length (store (step c x))"
    using SessionSend n by (simp add: step_simps session_send_frame)
  from assms(1) consider (reg) "session c S = Some n"
    | (gone) "session c S = None" "n \<notin> set (live c)" "s_connection (store c ! n) = None"
        "s_callbacks (store c ! n) = []"
    by (auto simp: attached_or_closed_def)
  thus ?thesis
  proof cases
    case reg
    with se have "session (step c x) S = Some n" by simp
    with wf' show ?thesis by (rule attached_or_closedI1)
  next
    case gone
    from step_fixed[OF n gone(2,3), of x] gone(3,4)
    have "s_connection (store (step c x) ! n) = None" "s_callbacks (store (step c x) ! n) = []"
      by simp_all
    with wf' le se li gone(1,2) show ?thesis by (simp add: attached_or_closedI2)
  qed
qed

lemma run_attached_or_closed:
  "attached_or_closed c S n \<Longrightarrow> list_all (\<lambda>x. \<not> attaches S x) ops \<Longrightarrow>
   attached_or_closed (run c ops) S n"
  by (induction ops arbitrary: c) (simp_all add: run_Cons step_attached_or_closed)

lemma detach_after_attach:
  assumes "get_prop e2 ''method'' = Inr (str ''Target.detachedFromTarget'')"
    and "get_prop e2 ''params'' = Inr p2"
    and "get_prop p2 ''sessionId'' = Inr (str S)"
    and "attached_or_closed d S n"
  shows "session (receive d e2) S = None"
    and "s_connection (store (receive d e2) ! n) = None"
    and "s_callbacks (store (receive d e2) ! n) = []"
    and "n < length (store (receive d e2))" and "n \<notin> set (live (receive d e2))"
proof -
  have na: "\<not> attaches S (TransportMessage e2)"
    using assms(1) by (simp add: str_def)
  from assms(4) have wf: "well_formed d" by (simp add: attached_or_closed_def)
  have a: "attached_or_closed (receive d e2) S n"
    using assms(4) na by (rule onMessage_attached_or_closed)
  have s: "session (receive d e2) S = None"
  proof (cases "session d S")
    case None thus ?thesis using na by (rule onMessage_absent)
  next
    case (Some a) from detach_closes(1)[OF assms(1-3) wf Some] show ?thesis .
  qed
  thus "session (receive d e2) S = None" .
  from a s show "s_connection (store (receive d e2) ! n) = None"
    and "s_callbacks (store (receive d e2) ! n) = []"
    and "n < length (store (receive d e2))" and "n \<notin> set (live (receive d e2))"
    by (simp_all add: attached_or_closed_def)
qed

text \<open>
  Claim C6, as amended. Take a state reached from a new Connection. After the router has
  processed an attach notification that carries the session id \<open>S\<close> and a target
  descriptor, \<open>session(S)\<close> returns a session, newly constructed and bound to this
  Connection, and the router has emitted \<open>sessionattached\<close> with that session on the
  Connection and then, when the envelope's own session id names a session of the map, on
  that session. When, after any further operations that deliver no other attach
  notification for \<open>S\<close>, the router processes a detach notification that names \<open>S\<close>, the
  closure routine of that session has run (its table is empty and its connection
  reference is gone; if it was still registered, this detach has rejected its pending
  calls and emitted its disconnection and \<open>sessiondetached\<close>) and \<open>session(S)\<close> returns
  nothing. Afterwards that session never returns to the map, and \<open>session(S)\<close> returns
  nothing for as long as no attach notification for \<open>S\<close> is delivered.
\<close>

theorem session_registered_from_attach_to_detach:
  assumes "c = run (new_Connection u) ops0"
    and "get_prop e1 ''method'' = Inr (str ''Target.attachedToTarget'')"
    and "get_prop e1 ''params'' = Inr p1"
    and "get_prop p1 ''sessionId'' = Inr (str S)"
    and "get_prop p1 ''targetInfo'' = Inr targetInfo"
    and "get_prop targetInfo ''type'' = Inr targetType"
    and "get_prop e2 ''method'' = Inr (str ''Target.detachedFromTarget'')"
    and "get_prop e2 ''params'' = Inr p2"
    and "get_prop p2 ''sessionId'' = Inr (str S)"
  shows "session (receive c e1) S = Some (length (store c)) \<and>
         length (store c) < length (store (receive c e1)) \<and>
         s_connection (store (receive c e1) ! length (store c)) = Some ThisConnection \<and>
         s_sessionId (store (receive c e1) ! length (store c)) = str S \<and>
         (\<exists>es. trace (receive c e1) = trace c @
                 Emit Conn (Named (str ''sessionattached'')) (SessionRef (length (store c))) # es) \<and>
         (\<forall>outer p. get_prop e1 ''sessionId'' = Inr outer \<and>
                    map_get (sessions (receive c e1)) outer = Some p \<longrightarrow>
            (\<exists>es. trace (receive c e1) = trace c @
                 Emit Conn (Named (str ''sessionattached'')) (SessionRef (length (store c))) #
                 Emit (Sess p) (Named (str ''sessionattached'')) (SessionRef (length (store c))) # es)) \<and>
         (\<forall>ops. list_all (\<lambda>x. \<not> attaches S x) ops \<longrightarrow>
            session (receive (run (receive c e1) ops) e2) S = None \<and>
            s_connection (store (receive (run (receive c e1) ops) e2) ! length (store c)) = None \<and>
            s_callbacks (store (receive (run (receive c e1) ops) e2) ! length (store c)) = [] \<and>
            (session (run (receive c e1) ops) S = Some (length (store c)) \<longrightarrow>
               (\<exists>es. trace (receive (run (receive c e1) ops) e2) =
                     trace (run (receive c e1) ops) @
                     closing_effects (store (run (receive c e1) ops) ! length (store c))
                       (length (store c)) @
                     Emit Conn (Named (str ''sessiondetached'')) (SessionRef (length (store c))) # es)) \<and>
            (\<forall>ops'. length (store c) \<notin> set (live (run (receive (run (receive c e1) ops) e2) ops')) \<and>
                     (list_all (\<lambda>x. \<not> attaches S x) ops' \<longrightarrow>
                        session (run (receive (run (receive c e1) ops) e2) ops') S = None)))"
proof -
  let ?n = "length (store c)"
  let ?c' = "receive c e1"
  obtain c1 outer where o: "get_prop e1 ''sessionId'' = Inr outer"
    and r: "onMessage c e1 = dispatch c1 e1"
    and s1: "sessions c1 = map_set (sessions c) (str S) ?n"
    and st1: "store c1 = store c @ [\<lparr>s_sessionId = str S, s_targetType = targetType,
                                 s_callbacks = [], s_connection = Some ThisConnection\<rparr>]"
    and t1: "trace c1 = trace c @
           Emit Conn (Named (str ''sessionattached'')) (SessionRef ?n) #
           (case map_get (sessions c1) outer of None \<Rightarrow> []
            | Some p \<Rightarrow> [Emit (Sess p) (Named (str ''sessionattached'')) (SessionRef ?n)])"
    by (rule attach_notification[OF assms(2-6), of c]) blast
  obtain es where es: "trace ?c' = trace c1 @ es"
    using dispatch_frame(6)[of c1 e1] r by auto
  have A1: "session ?c' S = Some ?n"
    using r s1 by (simp add: session_def dispatch_frame map_get_set_same str_def)
  have A2: "?n < length (store ?c')" using r st1 by (simp add: dispatch_frame)
  have A3: "s_connection (store ?c' ! ?n) = Some ThisConnection"
    using r st1 by (simp add: dispatch_frame)
  have A4: "s_sessionId (store ?c' ! ?n) = str S"
    using r st1 by (simp add: dispatch_frame)
  have A5: "\<exists>es. trace ?c' = trace c @
                 Emit Conn (Named (str ''sessionattached'')) (SessionRef ?n) # es"
    using es t1 by simp
  have A6: "\<forall>outer p. get_prop e1 ''sessionId'' = Inr outer \<and>
                    map_get (sessions ?c') outer = Some p \<longrightarrow>
            (\<exists>es. trace ?c' = trace c @
                 Emit Conn (Named (str ''sessionattached'')) (SessionRef ?n) #
                 Emit (Sess p) (Named (str ''sessionattached'')) (SessionRef ?n) # es)"
  proof (intro allI impI)
    fix outer' p
    assume "get_prop e1 ''sessionId'' = Inr outer' \<and> map_get (sessions ?c') outer' = Some p"
    with o r have "map_get (sessions c1) outer = Some p" by (simp add: dispatch_frame)
    with es t1 show "\<exists>es. trace ?c' = trace c @
                 Emit Conn (Named (str ''sessionattached'')) (SessionRef ?n) #
                 Emit (Sess p) (Named (str ''sessionattached'')) (SessionRef ?n) # es"
      by simp
  qed
  have wf: "well_formed ?c'"
    using assms(1) by (simp add: well_formed_reachable well_formed_onMessage)
  have ac: "attached_or_closed ?c' S ?n" using wf A1 by (rule attached_or_closedI1)
  have B: "session (receive (run ?c' ops) e2) S = None \<and>
            s_connection (store (receive (run ?c' ops) e2) ! ?n) = None \<and>
            s_callbacks (store (receive (run ?c' ops) e2) ! ?n) = [] \<and>
            (session (run ?c' ops) S = Some ?n \<longrightarrow>
               (\<exists>es. trace (receive (run ?c' ops) e2) =
                     trace (run ?c' ops) @ closing_effects (store (run ?c' ops) ! ?n) ?n @
                     Emit Conn (Named (str ''sessiondetached'')) (SessionRef ?n) # es)) \<and>
            (\<forall>ops'. ?n \<notin> set (live (run (receive (run ?c' ops) e2) ops')) \<and>
                     (list_all (\<lambda>x. \<not> attaches S x) ops' \<longrightarrow>
                        session (run (receive (run ?c' ops) e2) ops') S = None))"
    if na: "list_all (\<lambda>x. \<not> attaches S x) ops" for ops
  proof -
    let ?d = "run ?c' ops"
    have d: "attached_or_closed ?d S ?n" using ac na by (rule run_attached_or_closed)
    hence wfd: "well_formed ?d" by (simp add: attached_or_closed_def)
    note D = detach_after_attach[OF assms(7-9) d]
    have T: "session ?d S = Some ?n \<longrightarrow>
               (\<exists>es. trace (receive ?d e2) =
                     trace ?d @ closing_effects (store ?d ! ?n) ?n @
                     Emit Conn (Named (str ''sessiondetached'')) (SessionRef ?n) # es)"
      using detach_closes(4)[OF assms(7-9) wfd] by blast
    have "\<forall>ops'. ?n \<notin> set (live (run (receive ?d e2) ops')) \<and>
                     (list_all (\<lambda>x. \<not> attaches S x) ops' \<longrightarrow>
                        session (run (receive ?d e2) ops') S = None)"
      using run_not_live[OF D(4) D(5)] run_absent[OF D(1)] by blast
    with D(1-3) T show ?thesis by blast
  qed
  from A1 A2 A3 A4 A5 A6 B show ?thesis by blast
qed

theorem session_registered_from_attach_to_detach_witness:
  "session (receive (new_Connection ''ws'')
      (Some (JObj (attached_notification ''S1'' ''page'')))) ''S1'' = Some 0 \<and>
   session (receive (run (receive (new_Connection ''ws'')
      (Some (JObj (attached_notification ''S1'' ''page''))))
        [SessionSend 0 ''Page.enable'' None])
      (Some (JObj (detached_notification ''S1'')))) ''S1'' = None \<and>
   s_callbacks (store (receive (run (receive (new_Connection ''ws'')
      (Some (JObj (attached_notification ''S1'' ''page''))))
        [SessionSend 0 ''Page.enable'' None])
      (Some (JObj (detached_notification ''S1'')))) ! 0) = [] \<and>
   trace (receive (run (receive (new_Connection ''ws'')
      (Some (JObj (attached_notification ''S1'' ''page''))))
        [SessionSend 0 ''Page.enable'' None])
      (Some (JObj (detached_notification ''S1'')))) =
     [Emit Conn (Named (str ''sessionattached'')) (SessionRef 0),
      Emit Conn (Named (str ''Target.attachedToTarget''))
        (Value (Some (JObj [(''sessionId'', JStr ''S1''), (''targetInfo'', JObj [(''type'', JStr ''page'')])]))),
      TransportSend \<lparr>out_sessionId = str ''S1'', out_method = ''Page.enable'',
                      out_params = None, out_id = 1\<rparr>,
      Reject (Sess 0) (num 1)
        \<lparr>pe_message = ''Protocol error (Page.enable): Target closed.'', pe_originalMessage = None\<rparr>,
      Emit (Sess 0) CDPSessionDisconnected NoArg,
      Emit Conn (Named (str ''sessiondetached'')) (SessionRef 0),
      Emit Conn (Named (str ''Target.detachedFromTarget''))
        (Value (Some (JObj [(''sessionId'', JStr ''S1'')])))]"
proof -
  let ?e1 = "Some (JObj (attached_notification ''S1'' ''page''))"
  let ?e2 = "Some (JObj (detached_notification ''S1''))"
  let ?ops = "[SessionSend 0 ''Page.enable'' None]"
  have h0: "new_Connection ''ws'' = run (new_Connection ''ws'') []" by simp
  have h1: "get_prop ?e1 ''method'' = Inr (str ''Target.attachedToTarget'')"
    by (simp add: attached_notification_def str_def)
  have h2: "get_prop ?e1 ''params'' =
      Inr (Some (JObj [(''sessionId'', JStr ''S1''), (''targetInfo'', JObj [(''type'', JStr ''page'')])]))"
    by (simp add: attached_notification_def)
  have h3: "get_prop (Some (JObj [(''sessionId'', JStr ''S1''), (''targetInfo'', JObj [(''type'', JStr ''page'')])]))
      ''sessionId'' = Inr (str ''S1'')" by (simp add: str_def)
  have h4: "get_prop (Some (JObj [(''sessionId'', JStr ''S1''), (''targetInfo'', JObj [(''type'', JStr ''page'')])]))
      ''targetInfo'' = Inr (Some (JObj [(''type'', JStr ''page'')]))" by simp
  have h5: "get_prop (Some (JObj [(''type'', JStr ''page'')])) ''type'' = Inr (str ''page'')"
    by (simp add: str_def)
  have h6: "get_prop ?e2 ''method'' = Inr (str ''Target.detachedFromTarget'')"
    by (simp add: detached_notification_def str_def)
  have h7: "get_prop ?e2 ''params'' = Inr (Some (JObj [(''sessionId'', JStr ''S1'')]))"
    by (simp add: detached_notification_def)
  have h8: "get_prop (Some (JObj [(''sessionId'', JStr ''S1'')])) ''sessionId'' = Inr (str ''S1'')"
    by (simp add: str_def)
  have l: "length (store (new_Connection ''ws'')) = 0" by (simp add: new_Connection_def)
  have n: "list_all (\<lambda>x. \<not> attaches ''S1'' x) ?ops" by simp
  have t: "trace (receive (run (receive (new_Connection ''ws'') ?e1) ?ops) ?e2) =
     [Emit Conn (Named (str ''sessionattached'')) (SessionRef 0),
      Emit Conn (Named (str ''Target.attachedToTarget''))
        (Value (Some (JObj [(''sessionId'', JStr ''S1''), (''targetInfo'', JObj [(''type'', JStr ''page'')])]))),
      TransportSend \<lparr>out_sessionId = str ''S1'', out_method = ''Page.enable'',
                      out_params = None, out_id = 1\<rparr>,
      Reject (Sess 0) (num 1)
        \<lparr>pe_message = ''Protocol error (Page.enable): Target closed.'', pe_originalMessage = None\<rparr>,
      Emit (Sess 0) CDPSessionDisconnected NoArg,
      Emit Conn (Named (str ''sessiondetached'')) (SessionRef 0),
      Emit Conn (Named (str ''Target.detachedFromTarget''))
        (Value (Some (JObj [(''sessionId'', JStr ''S1'')])))]"
    by code_simp
  note T = session_registered_from_attach_to_detach[OF h0 h1 h2 h3 h4 h5 h6 h7 h8]
  from T l have a: "session (receive (new_Connection ''ws'') ?e1) ''S1'' = Some 0" by simp
  from T have "\<forall>ops. list_all (\<lambda>x. \<not> attaches ''S1'' x) ops \<longrightarrow>
            session (receive (run (receive (new_Connection ''ws'') ?e1) ops) ?e2) ''S1'' = None \<and>
            s_callbacks (store (receive (run (receive (new_Connection ''ws'') ?e1) ops) ?e2) !
               length (store (new_Connection ''ws''))) = []"
    by blast
  from this[rule_format, OF n] l
  have "session (receive (run (receive (new_Connection ''ws'') ?e1) ?ops) ?e2) ''S1'' = None"
    "s_callbacks (store (receive (run (receive (new_Connection ''ws'') ?e1) ?ops) ?e2) ! 0) = []"
    by simp_all
  with a t show ?thesis by simp
qed

text \<open>
  The claim C6 as stated fails when a second attach notification for the same id comes
  between the attach and the detach: the detach notification closes the session that the
  second notification has registered, and the first session, the one that \<open>session(S)\<close>
  returned after its attach, keeps its connection reference and its pending call. It
  fails too when an attach notification for the id comes after the detach: \<open>session(S)\<close>
  returns a session again.
\<close>

theorem attach_detach_counterexample:
  "session replace_demo ''S1'' = Some 0 \<and>
   session (receive (receive replace_demo (Some (JObj (attached_notification ''S1'' ''page''))))
      (Some (JObj (detached_notification ''S1'')))) ''S1'' = None \<and>
   s_connection (store (receive (receive replace_demo
      (Some (JObj (attached_notification ''S1'' ''page''))))
      (Some (JObj (detached_notification ''S1'')))) ! 0) = Some ThisConnection \<and>
   s_callbacks (store (receive (receive replace_demo
      (Some (JObj (attached_notification ''S1'' ''page''))))
      (Some (JObj (detached_notification ''S1'')))) ! 0) =
     [(num 1, \<lparr>cb_error = new_ProtocolError, cb_method = ''Page.enable''\<rparr>)] \<and>
   settlements (Sess 0) (receive (receive replace_demo
      (Some (JObj (attached_notification ''S1'' ''page''))))
      (Some (JObj (detached_notification ''S1'')))) = [] \<and>
   session (receive detached_demo (Some (JObj (attached_notification ''S1'' ''page'')))) ''S1''
     = Some 1"
  by code_simp

section \<open>Closure of the Connection, in reachable states\<close>

text \<open>
  Claim C3, as amended. Closing a Connection that is not yet closed, in a state reached
  from a new Connection, sets the closed flag and unhooks the transport, rejects every
  pending call of the Connection's table with the error
  \<open>Protocol error (method): Target closed.\<close> of that call's method, then runs the closure
  routine of every session of the session map, in the order of the map (it rejects that
  session's pending calls in the same way, empties its table, drops its connection
  reference and emits its disconnected event), and at last emits the Connection's
  disconnected event. Afterwards the Connection's table and the session map are empty, and
  so is the table of every session that was in the map. Closing again changes nothing.
\<close>

theorem close_rejects_all_pending_calls:
  assumes "c = run (new_Connection u) ops" and "\<not> closed c"
  shows "closed (onClose c) \<and> \<not> hooked (onClose c) \<and>
         callbacks (onClose c) = [] \<and> sessions (onClose c) = [] \<and>
         trace (onClose c) =
           trace c @ map (\<lambda>(k, cb). Reject Conn k (target_closed cb)) (callbacks c) @
           concat (map (\<lambda>a. closing_effects (store c ! a) a) (live c)) @
           [Emit Conn ConnectionDisconnected NoArg] \<and>
         list_all (\<lambda>a. s_callbacks (store (onClose c) ! a) = [] \<and>
                       s_connection (store (onClose c) ! a) = None) (live c) \<and>
         (\<forall>cb. sublist (cb_method cb) (pe_message (target_closed cb)) \<and>
               sublist ''Target closed'' (pe_message (target_closed cb))) \<and>
         onClose (onClose c) = onClose c"
proof -
  from assms(1) have "well_formed c" by (simp add: well_formed_reachable)
  with assms(2) show ?thesis by (rule onClose_well_formed)
qed

theorem close_rejects_all_pending_calls_witness:
  "\<not> closed three_pending \<and>
   callbacks three_pending =
     [(num 1, \<lparr>cb_error = new_ProtocolError, cb_method = ''Target.getTargets''\<rparr>)] \<and>
   s_callbacks (store three_pending ! 0) =
     [(num 2, \<lparr>cb_error = new_ProtocolError, cb_method = ''Page.enable''\<rparr>)] \<and>
   s_callbacks (store three_pending ! 1) =
     [(num 3, \<lparr>cb_error = new_ProtocolError, cb_method = ''Runtime.enable''\<rparr>)] \<and>
   trace (onClose three_pending) = trace three_pending @
     [Reject Conn (num 1)
        \<lparr>pe_message = ''Protocol error (Target.getTargets): Target closed.'', pe_originalMessage = None\<rparr>,
      Reject (Sess 0) (num 2)
        \<lparr>pe_message = ''Protocol error (Page.enable): Target closed.'', pe_originalMessage = None\<rparr>,
      Emit (Sess 0) CDPSessionDisconnected NoArg,
      Reject (Sess 1) (num 3)
        \<lparr>pe_message = ''Protocol error (Runtime.enable): Target closed.'', pe_originalMessage = None\<rparr>,
      Emit (Sess 1) CDPSessionDisconnected NoArg,
      Emit Conn ConnectionDisconnected NoArg] \<and>
   callbacks (onClose three_pending) = [] \<and> sessions (onClose three_pending) = [] \<and>
   s_callbacks (store (onClose three_pending) ! 0) = [] \<and>
   s_callbacks (store (onClose three_pending) ! 1) = [] \<and>
   onClose (onClose three_pending) = onClose three_pending"
proof -
  have h1: "three_pending = run (new_Connection ''ws'')
     [TransportMessage (Some (JObj (attached_notification ''S1'' ''page''))),
      TransportMessage (Some (JObj (attached_notification ''S2'' ''worker''))),
      Send ''Target.getTargets'' None,
      SessionSend 0 ''Page.enable'' None,
      SessionSend 1 ''Runtime.enable'' None]" by (simp add: three_pending_def)
  have h2: "\<not> closed three_pending" by code_simp
  have l: "live three_pending = [0, 1]" by code_simp
  have c: "callbacks three_pending =
     [(num 1, \<lparr>cb_error = new_ProtocolError, cb_method = ''Target.getTargets''\<rparr>)]" by code_simp
  have s0: "s_callbacks (store three_pending ! 0) =
     [(num 2, \<lparr>cb_error = new_ProtocolError, cb_method = ''Page.enable''\<rparr>)]" by code_simp
  have s1: "s_callbacks (store three_pending ! 1) =
     [(num 3, \<lparr>cb_error = new_ProtocolError, cb_method = ''Runtime.enable''\<rparr>)]" by code_simp
  have s1': "s_callbacks (store three_pending ! Suc 0) =
     [(num 3, \<lparr>cb_error = new_ProtocolError, cb_method = ''Runtime.enable''\<rparr>)]"
    using s1 by simp
  from close_rejects_all_pending_calls[OF h1 h2] h2 c s0 s1 s1' show ?thesis
    by (simp add: l closing_effects_def target_closed_def rewriteError_def new_ProtocolError_def)
qed

text \<open>
  The claim C3 as stated fails where a session has been replaced in the session map by a
  later attach notification for the same id: that session still holds its connection
  reference, so it is not detached, yet closing the Connection does not run its closure
  routine, and its pending call stays in its table, neither resolved nor rejected.
\<close>

theorem close_counterexample:
  "\<not> closed replaced_demo \<and>
   s_connection (store replaced_demo ! 0) = Some ThisConnection \<and>
   s_callbacks (store replaced_demo ! 0) =
     [(num 1, \<lparr>cb_error = new_ProtocolError, cb_method = ''Page.enable''\<rparr>)] \<and>
   closed (onClose replaced_demo) \<and>
   s_connection (store (onClose replaced_demo) ! 0) = Some ThisConnection \<and>
   s_callbacks (store (onClose replaced_demo) ! 0) =
     [(num 1, \<lparr>cb_error = new_ProtocolError, cb_method = ''Page.enable''\<rparr>)] \<and>
   settlements (Sess 0) (onClose replaced_demo) = []"
  by code_simp

section \<open>Sends on a closed Connection\<close>

lemma closed_step:
  assumes "closed c" and "\<not> hooked c"
  shows "closed (step c x) \<and> \<not> hooked (step c x) \<and> settlements w (step c x) = settlements w c"
proof (cases x)
  case (Send m p)
  with assms show ?thesis by (simp add: step_simps send_frame)
next
  case (SessionSend a m p)
  with assms show ?thesis by (simp add: step_simps session_send_frame)
next
  case (SessionDetach a)
  with assms show ?thesis by (simp add: step_simps session_detach_frame)
next
  case (CreateSession t)
  with assms show ?thesis by (simp add: step_simps createSession_send_def send_frame)
next
  case Dispose
  with assms show ?thesis by (simp add: step_simps dispose_def onClose_closed)
next
  case (TransportMessage obj)
  with assms show ?thesis by (simp add: step_simps)
next
  case TransportClosed
  with assms show ?thesis by (simp add: step_simps)
qed

lemma closed_run:
  "closed c \<Longrightarrow> \<not> hooked c \<Longrightarrow> settlements w (run c ops) = settlements w c"
proof (induction ops arbitrary: c)
  case Nil show ?case by simp
next
  case (Cons x xs)
  from closed_step[OF Cons.prems, of x w] Cons.IH[of "step c x"] show ?case
    by (simp add: run_Cons)
qed

text \<open>
  Claim C5 fails on the code. \<open>Connection.send\<close> does not look at the closed flag: on a
  Connection that has been disposed of, a send takes the next id, hands the message to
  the transport and registers a pending call; whatever happens afterwards, no pending call
  of the Connection is resolved or rejected any more.
\<close>

theorem send_after_close_reaches_transport:
  "closed (dispose (new_Connection ''ws'')) \<and>
   fst (send (dispose (new_Connection ''ws'')) ''Foo.bar'' None) = Pending Conn (num 1) \<and>
   trace (snd (send (dispose (new_Connection ''ws'')) ''Foo.bar'' None)) =
     trace (dispose (new_Connection ''ws'')) @
       [TransportSend \<lparr>out_sessionId = None, out_method = ''Foo.bar'', out_params = None, out_id = 1\<rparr>] \<and>
   callbacks (snd (send (dispose (new_Connection ''ws'')) ''Foo.bar'' None)) =
     [(num 1, \<lparr>cb_error = new_ProtocolError, cb_method = ''Foo.bar''\<rparr>)] \<and>
   (\<forall>ops. settlements Conn (run (snd (send (dispose (new_Connection ''ws'')) ''Foo.bar'' None)) ops) = [])"
proof -
  let ?c = "snd (send (dispose (new_Connection ''ws'')) ''Foo.bar'' None)"
  have 1: "closed (dispose (new_Connection ''ws'')) \<and>
   fst (send (dispose (new_Connection ''ws'')) ''Foo.bar'' None) = Pending Conn (num 1) \<and>
   trace ?c = trace (dispose (new_Connection ''ws'')) @
       [TransportSend \<lparr>out_sessionId = None, out_method = ''Foo.bar'', out_params = None, out_id = 1\<rparr>] \<and>
   callbacks ?c = [(num 1, \<lparr>cb_error = new_ProtocolError, cb_method = ''Foo.bar''\<rparr>)]"
    by code_simp
  have c: "closed ?c" "\<not> hooked ?c" "settlements Conn ?c = []" by code_simp+
  have "\<forall>ops. settlements Conn (run ?c ops) = []"
    using closed_run[OF c(1,2), of Conn] c(3) by simp
  with 1 show ?thesis by blast
qed

end
